theory Spec2Isabelle
  imports Main "HOL-Library.Word"
begin

unbundle bit_operations_syntax

section \<open>The MFRC522 driver (24.1.1\_RFID) as a shallow embedding\<close>

text \<open>
  The driver of \<^verbatim>\<open>src/mfrc522/mfrc522.c\<close> and the two block commands of
  \<^verbatim>\<open>src/mfrc522/mfrc522_debug.c\<close>, function by function and under the names
  of the source.

  \<^item> \<^verbatim>\<open>uint8_t\<close> and \<^verbatim>\<open>uint16_t\<close> are 8- and 16-bit words.
  \<^item> \<^verbatim>\<open>MFRC522_Status_t\<close> is \<^verbatim>\<open>int\<close> in the header, and two functions
    return numbers that are none of the three status macros, so a status is an \<open>int\<close>.
  \<^item> A \<^verbatim>\<open>uint8_t*\<close> is the memory reachable from the pointer: a map from
    the offset to the byte. A function that stores through a pointer returns the new map.
    Where one array is passed for two parameters (\<^verbatim>\<open>sendData\<close> and
    \<^verbatim>\<open>backData\<close> at every call of \<^verbatim>\<open>MFRC522_ToCard\<close>), the callee has read
    everything from the first before it stores through the second, so passing the map
    twice is the same run.
  \<^item> A local that the source leaves uninitialised (\<^verbatim>\<open>recvBits\<close>,
    \<^verbatim>\<open>buff\<close>) starts with the value the caller of the model passes for it.
  \<^item> The chip is reached only through \<^verbatim>\<open>MFRC522_HAL_write\<close>,
    \<^verbatim>\<open>MFRC522_HAL_read\<close> and \<^verbatim>\<open>MFRC522_HAL_Delay\<close>. The byte a
    register read answers is not decided by the driver: it is \<open>chip s k a\<close>, the answer
    to a read of register \<open>a\<close> issued as transfer number \<open>k\<close>. Every theorem
    below that does not fix a chip holds for all of them. The Linux HAL ends the
    process when a transfer fails; the model describes the runs in which every
    transfer goes through, the only ones in which a driver function returns.
  \<^item> Console output (\<^verbatim>\<open>printf\<close>, \<^verbatim>\<open>puts\<close>) is left out; it touches neither
    the bus nor a result.
  \<^item> \<open>mask\<close> and \<open>id\<close> are constants of HOL, so the parameters of these names are
    \<open>msk\<close> and \<open>id'\<close>.
\<close>

type_synonym u8 = "8 word"
type_synonym u16 = "16 word"
type_synonym buf = "nat \<Rightarrow> u8"

datatype bus_op = RegWrite u8 u8 | RegRead u8 u8

record hal =
  chip :: "nat \<Rightarrow> u8 \<Rightarrow> u8"
  xfers :: nat
  trace :: "bus_op list"
  slept :: nat
  Checking_Card :: bool

subsection \<open>mfrc522.h\<close>

text \<open>The macros of the header stand for their numbers, as in C.\<close>

abbreviation (input) MI_OK :: int where "MI_OK \<equiv> 0"
abbreviation (input) MI_NOTAGERR :: int where "MI_NOTAGERR \<equiv> - 1"
abbreviation (input) MI_ERR :: int where "MI_ERR \<equiv> - 2"

abbreviation (input) PCD_IDLE :: u8 where "PCD_IDLE \<equiv> 0x00"
abbreviation (input) PCD_AUTHENT :: u8 where "PCD_AUTHENT \<equiv> 0x0E"
abbreviation (input) PCD_TRANSCEIVE :: u8 where "PCD_TRANSCEIVE \<equiv> 0x0C"
abbreviation (input) PCD_CALCCRC :: u8 where "PCD_CALCCRC \<equiv> 0x03"

abbreviation (input) PICC_ANTICOLL :: u8 where "PICC_ANTICOLL \<equiv> 0x93"
abbreviation (input) PICC_SElECTTAG :: u8 where "PICC_SElECTTAG \<equiv> 0x93"
abbreviation (input) PICC_AUTHENT1A :: u8 where "PICC_AUTHENT1A \<equiv> 0x60"
abbreviation (input) PICC_WRITE :: u8 where "PICC_WRITE \<equiv> 0xA0"

abbreviation (input) MFRC522_REG_COMMAND :: u8 where "MFRC522_REG_COMMAND \<equiv> 0x01"
abbreviation (input) MFRC522_REG_COMM_IE_N :: u8 where "MFRC522_REG_COMM_IE_N \<equiv> 0x02"
abbreviation (input) MFRC522_REG_COMM_IRQ :: u8 where "MFRC522_REG_COMM_IRQ \<equiv> 0x04"
abbreviation (input) MFRC522_REG_DIV_IRQ :: u8 where "MFRC522_REG_DIV_IRQ \<equiv> 0x05"
abbreviation (input) MFRC522_REG_ERROR :: u8 where "MFRC522_REG_ERROR \<equiv> 0x06"
abbreviation (input) MFRC522_REG_STATUS2 :: u8 where "MFRC522_REG_STATUS2 \<equiv> 0x08"
abbreviation (input) MFRC522_REG_FIFO_DATA :: u8 where "MFRC522_REG_FIFO_DATA \<equiv> 0x09"
abbreviation (input) MFRC522_REG_FIFO_LEVEL :: u8 where "MFRC522_REG_FIFO_LEVEL \<equiv> 0x0A"
abbreviation (input) MFRC522_REG_CONTROL :: u8 where "MFRC522_REG_CONTROL \<equiv> 0x0C"
abbreviation (input) MFRC522_REG_BIT_FRAMING :: u8 where "MFRC522_REG_BIT_FRAMING \<equiv> 0x0D"
abbreviation (input) MFRC522_REG_CRC_RESULT_M :: u8 where "MFRC522_REG_CRC_RESULT_M \<equiv> 0x21"
abbreviation (input) MFRC522_REG_CRC_RESULT_L :: u8 where "MFRC522_REG_CRC_RESULT_L \<equiv> 0x22"

abbreviation (input) MFRC522_MAX_LEN :: u8 where "MFRC522_MAX_LEN \<equiv> 16"

subsection \<open>The hardware abstraction layer\<close>

definition MFRC522_HAL_write :: "u8 \<Rightarrow> u8 \<Rightarrow> hal \<Rightarrow> hal" where
  "MFRC522_HAL_write addr val s =
     s\<lparr>xfers := Suc (xfers s), trace := RegWrite addr val # trace s\<rparr>"

definition MFRC522_HAL_read :: "u8 \<Rightarrow> hal \<Rightarrow> u8 \<times> hal" where
  "MFRC522_HAL_read addr s =
     (let v = chip s (xfers s) addr
      in (v, s\<lparr>xfers := Suc (xfers s), trace := RegRead addr v # trace s\<rparr>))"

definition MFRC522_HAL_Delay :: "nat \<Rightarrow> hal \<Rightarrow> hal" where
  "MFRC522_HAL_Delay ms s = s\<lparr>slept := slept s + ms\<rparr>"

subsection \<open>Register access\<close>

definition MFRC522_WriteRegister :: "u8 \<Rightarrow> u8 \<Rightarrow> hal \<Rightarrow> hal" where
  "MFRC522_WriteRegister addr val s = MFRC522_HAL_write addr val s"

definition MFRC522_ReadRegister :: "u8 \<Rightarrow> hal \<Rightarrow> u8 \<times> hal" where
  "MFRC522_ReadRegister addr s = MFRC522_HAL_read addr s"

definition MFRC522_SetBitMask :: "u8 \<Rightarrow> u8 \<Rightarrow> hal \<Rightarrow> hal" where
  "MFRC522_SetBitMask reg msk s =
     (case MFRC522_ReadRegister reg s of
        (v, s1) \<Rightarrow> MFRC522_WriteRegister reg (v OR msk) s1)"

definition MFRC522_ClearBitMask :: "u8 \<Rightarrow> u8 \<Rightarrow> hal \<Rightarrow> hal" where
  "MFRC522_ClearBitMask reg msk s =
     (case MFRC522_ReadRegister reg s of
        (v, s1) \<Rightarrow> MFRC522_WriteRegister reg (v AND NOT msk) s1)"

subsection \<open>MFRC522\_ToCard\<close>

text \<open>The \<^verbatim>\<open>switch\<close> on the command: the interrupt-enable mask and the wait mask.\<close>

definition ToCard_irqEn :: "u8 \<Rightarrow> u8" where
  "ToCard_irqEn command =
     (if command = PCD_AUTHENT then 0x12 else if command = PCD_TRANSCEIVE then 0x77 else 0x00)"

definition ToCard_waitIRq :: "u8 \<Rightarrow> u8" where
  "ToCard_waitIRq command =
     (if command = PCD_AUTHENT then 0x10 else if command = PCD_TRANSCEIVE then 0x30 else 0x00)"

text \<open>
  \<^verbatim>\<open>for (i = 0; i < sendLen; i++) MFRC522_WriteRegister(MFRC522_REG_FIFO_DATA, sendData[i]);\<close>
  (lines 186 to 188, and again lines 283 to 285 with \<^verbatim>\<open>pIndata\<close> and \<^verbatim>\<open>len\<close>).
  The counter stays at or below \<open>sendLen \<le> 255\<close>, so it never wraps and is a \<open>nat\<close>.
\<close>

function FIFO_send_loop :: "buf \<Rightarrow> u8 \<Rightarrow> nat \<Rightarrow> hal \<Rightarrow> hal" where
  "FIFO_send_loop sendData sendLen i s =
     (if i < unat sendLen
      then FIFO_send_loop sendData sendLen (Suc i)
             (MFRC522_WriteRegister MFRC522_REG_FIFO_DATA (sendData i) s)
      else s)"
  by pat_completeness auto
termination
  by (relation "measure (\<lambda>(sendData, sendLen, i, s). unat sendLen - i)") auto

declare FIFO_send_loop.simps [simp del]

text \<open>Lines 179 to 194: arm the interrupts, flush the FIFO, load it, issue the command.\<close>

definition ToCard_start :: "u8 \<Rightarrow> buf \<Rightarrow> u8 \<Rightarrow> hal \<Rightarrow> hal" where
  "ToCard_start command sendData sendLen s =
     (let s = MFRC522_WriteRegister MFRC522_REG_COMM_IE_N (ToCard_irqEn command OR 0x80) s;
          s = MFRC522_ClearBitMask MFRC522_REG_COMM_IRQ 0x80 s;
          s = MFRC522_SetBitMask MFRC522_REG_FIFO_LEVEL 0x80 s;
          s = MFRC522_WriteRegister MFRC522_REG_COMMAND PCD_IDLE s;
          s = FIFO_send_loop sendData sendLen 0 s;
          s = MFRC522_WriteRegister MFRC522_REG_COMMAND command s
      in if command = PCD_TRANSCEIVE
         then MFRC522_SetBitMask MFRC522_REG_BIT_FRAMING 0x80 s
         else s)"

text \<open>
  The \<^verbatim>\<open>do ... while\<close> of lines 198 to 208, entered with the value of the 16-bit
  counter \<open>i\<close>: a delay, a read of the interrupt register, \<^verbatim>\<open>i--\<close>, and the test
  \<^verbatim>\<open>(i != 0) && !(n & 0x01) && !(n & waitIRq)\<close>. It returns the counter, the last
  value read and the state.
\<close>

function ToCard_wait_loop :: "u8 \<Rightarrow> u16 \<Rightarrow> hal \<Rightarrow> u16 \<times> u8 \<times> hal" where
  "ToCard_wait_loop waitIRq i s =
     (case MFRC522_ReadRegister MFRC522_REG_COMM_IRQ
             (MFRC522_HAL_Delay (if Checking_Card s then 16 else 20) s) of
        (n, s1) \<Rightarrow>
          if i - 1 \<noteq> 0 \<and> n AND 0x01 = 0 \<and> n AND waitIRq = 0
          then ToCard_wait_loop waitIRq (i - 1) s1
          else (i - 1, n, s1))"
  by pat_completeness auto
termination
proof (relation "measure (\<lambda>(waitIRq, i, s). unat (i - 1))", goal_cases)
  case 1
  show ?case by simp
next
  case (2 waitIRq i s n s1)
  then have "i - 1 \<noteq> 0" by simp
  then have "unat (i - 1 - 1) < unat (i - 1)"
    by (metis unat_minus_one unat_gt_0 diff_less zero_less_one)
  then show ?case by (simp only: in_measure prod.case)
qed

declare ToCard_wait_loop.simps [simp del]

text \<open>
  Lines 222 to 240. The bit count is computed in \<^verbatim>\<open>int\<close> and stored in a
  \<^verbatim>\<open>uint16_t\<close>; the byte count is the FIFO level, 0 raised to 1, cut at
  \<^verbatim>\<open>MFRC522_MAX_LEN\<close>.
\<close>

definition ToCard_backLen :: "u8 \<Rightarrow> u8 \<Rightarrow> u16" where
  "ToCard_backLen n lastBits =
     (if lastBits \<noteq> 0 then word_of_int ((uint n - 1) * 8 + uint lastBits)
      else word_of_int (uint n * 8))"

definition ToCard_recv_count :: "u8 \<Rightarrow> u8" where
  "ToCard_recv_count n =
     (let n = (if n = 0 then 1 else n)
      in if n > MFRC522_MAX_LEN then MFRC522_MAX_LEN else n)"

function ToCard_recv_loop :: "u8 \<Rightarrow> nat \<Rightarrow> buf \<Rightarrow> hal \<Rightarrow> buf \<times> hal" where
  "ToCard_recv_loop n i backData s =
     (if i < unat n
      then (case MFRC522_ReadRegister MFRC522_REG_FIFO_DATA s of
              (v, s1) \<Rightarrow> ToCard_recv_loop n (Suc i) (backData(i := v)) s1)
      else (backData, s))"
  by pat_completeness auto
termination
  by (relation "measure (\<lambda>(n, i, backData, s). unat n - i)") auto

declare ToCard_recv_loop.simps [simp del]

text \<open>
  The result is the status, the memory behind \<^verbatim>\<open>backData\<close>, the value of
  \<^verbatim>\<open>*backLen\<close> and the state. \<open>backLen\<close> is what \<^verbatim>\<open>*backLen\<close> held at the call.
\<close>

definition MFRC522_ToCard ::
  "u8 \<Rightarrow> buf \<Rightarrow> u8 \<Rightarrow> buf \<Rightarrow> u16 \<Rightarrow> hal \<Rightarrow> int \<times> buf \<times> u16 \<times> hal" where
  "MFRC522_ToCard command sendData sendLen backData backLen s =
     (let irqEn = ToCard_irqEn command;
          waitIRq = ToCard_waitIRq command
      in case ToCard_wait_loop waitIRq 2000 (ToCard_start command sendData sendLen s) of
        (i, n, s) \<Rightarrow>
          let s = MFRC522_ClearBitMask MFRC522_REG_BIT_FRAMING 0x80 s
          in if i \<noteq> 0
             then (case MFRC522_ReadRegister MFRC522_REG_ERROR s of
               (e, s) \<Rightarrow>
                 if e AND 0x1B = 0
                 then let status = (if n AND irqEn AND 0x01 \<noteq> 0 then MI_NOTAGERR else MI_OK)
                      in if command = PCD_TRANSCEIVE
                         then (case MFRC522_ReadRegister MFRC522_REG_FIFO_LEVEL s of
                           (n, s) \<Rightarrow>
                             (case MFRC522_ReadRegister MFRC522_REG_CONTROL s of
                               (c, s) \<Rightarrow>
                                 let lastBits = c AND 0x07
                                 in (case ToCard_recv_loop (ToCard_recv_count n) 0 backData s of
                                   (backData, s) \<Rightarrow>
                                     (status, backData, ToCard_backLen n lastBits, s))))
                         else (status, backData, backLen, s)
                 else (MI_ERR, backData, backLen, s))
             else (MI_ERR, backData, backLen, s))"

subsection \<open>MFRC522\_CalculateCRC\<close>

text \<open>
  \<^verbatim>\<open>&b[k]\<close> is the memory of \<open>b\<close> from offset \<open>k\<close> on; after a call that
  stored through it, \<open>b\<close> is \<open>buf_back b k out\<close>, with \<open>out\<close> what the callee left.
\<close>

definition buf_from :: "buf \<Rightarrow> nat \<Rightarrow> buf" where
  "buf_from b k = (\<lambda>i. b (k + i))"

definition buf_back :: "buf \<Rightarrow> nat \<Rightarrow> buf \<Rightarrow> buf" where
  "buf_back b k out = (\<lambda>i. if i < k then b i else out (i - k))"

text \<open>
  The \<^verbatim>\<open>do ... while\<close> of lines 290 to 293, entered with the 8-bit counter \<open>i\<close>.
\<close>

function CalculateCRC_wait_loop :: "u8 \<Rightarrow> hal \<Rightarrow> u8 \<times> u8 \<times> hal" where
  "CalculateCRC_wait_loop i s =
     (case MFRC522_ReadRegister MFRC522_REG_DIV_IRQ s of
        (n, s1) \<Rightarrow>
          if i - 1 \<noteq> 0 \<and> n AND 0x04 = 0
          then CalculateCRC_wait_loop (i - 1) s1
          else (i - 1, n, s1))"
  by pat_completeness auto
termination
proof (relation "measure (\<lambda>(i, s). unat (i - 1))", goal_cases)
  case 1
  show ?case by simp
next
  case (2 i s n s1)
  then have "i - 1 \<noteq> 0" by simp
  then have "unat (i - 1 - 1) < unat (i - 1)"
    by (metis unat_minus_one unat_gt_0 diff_less zero_less_one)
  then show ?case by (simp only: in_measure prod.case)
qed

declare CalculateCRC_wait_loop.simps [simp del]

text \<open>Lines 278 to 286: clear the CRC interrupt, flush and load the FIFO, start the CRC.\<close>

definition CalculateCRC_start :: "buf \<Rightarrow> u8 \<Rightarrow> hal \<Rightarrow> hal" where
  "CalculateCRC_start pIndata len s =
     (let s = MFRC522_ClearBitMask MFRC522_REG_DIV_IRQ 0x04 s;
          s = MFRC522_SetBitMask MFRC522_REG_FIFO_LEVEL 0x80 s;
          s = FIFO_send_loop pIndata len 0 s
      in MFRC522_WriteRegister MFRC522_REG_COMMAND PCD_CALCCRC s)"

text \<open>
  The function is \<^verbatim>\<open>void\<close>: all it hands back is the memory behind
  \<^verbatim>\<open>pOutData\<close>.
\<close>

definition MFRC522_CalculateCRC :: "buf \<Rightarrow> u8 \<Rightarrow> buf \<Rightarrow> hal \<Rightarrow> buf \<times> hal" where
  "MFRC522_CalculateCRC pIndata len pOutData s =
     (case CalculateCRC_wait_loop 0xFF (CalculateCRC_start pIndata len s) of
        (i, n, s) \<Rightarrow>
          (case MFRC522_ReadRegister MFRC522_REG_CRC_RESULT_L s of
            (lo, s) \<Rightarrow>
              (case MFRC522_ReadRegister MFRC522_REG_CRC_RESULT_M s of
                (hi, s) \<Rightarrow> (pOutData(0 := lo, 1 := hi), s))))"

subsection \<open>The card commands\<close>

text \<open>
  What the uninitialised locals \<^verbatim>\<open>recvBits\<close> and \<^verbatim>\<open>buff\<close> of a function hold
  when it is entered.
\<close>

record uninit =
  recvBits0 :: u16
  buff0 :: buf

text \<open>
  Lines 140 to 142: what \<^verbatim>\<open>MFRC522_Request\<close> hands to the transceive. The
  parameter \<open>backBits\<close> of the function below is what its uninitialised local of that
  name holds on entry; likewise \<open>unLen\<close> and \<open>recvBits\<close> further down.
\<close>

definition Request_frame :: "u8 \<Rightarrow> buf \<Rightarrow> hal \<Rightarrow> buf \<times> hal" where
  "Request_frame reqMode TagType s =
     (TagType(0 := reqMode),
      MFRC522_WriteRegister MFRC522_REG_BIT_FRAMING 0x07 s)"

definition MFRC522_Request :: "u8 \<Rightarrow> buf \<Rightarrow> u16 \<Rightarrow> hal \<Rightarrow> int \<times> buf \<times> hal" where
  "MFRC522_Request reqMode TagType backBits s =
     (case Request_frame reqMode TagType s of
        (TagType, s) \<Rightarrow>
          (case MFRC522_ToCard PCD_TRANSCEIVE TagType 1 TagType backBits s of
            (status, TagType, backBits, s) \<Rightarrow>
              if status \<noteq> MI_OK then (status, TagType, s)
              else if backBits \<noteq> 0x10 then (MI_ERR, TagType, s)
              else (MI_OK, TagType, s)))"

text \<open>Lines 256 to 259: what \<^verbatim>\<open>MFRC522_Anticoll\<close> hands to the transceive.\<close>

definition Anticoll_frame :: "buf \<Rightarrow> hal \<Rightarrow> buf \<times> hal" where
  "Anticoll_frame serNum s =
     (serNum(0 := PICC_ANTICOLL, 1 := 0x20),
      MFRC522_WriteRegister MFRC522_REG_BIT_FRAMING 0x00 s)"

definition MFRC522_Anticoll :: "buf \<Rightarrow> u16 \<Rightarrow> hal \<Rightarrow> int \<times> buf \<times> hal" where
  "MFRC522_Anticoll serNum unLen s =
     (case Anticoll_frame serNum s of
        (serNum, s) \<Rightarrow>
          (case MFRC522_ToCard PCD_TRANSCEIVE serNum 2 serNum unLen s of
            (status, serNum, unLen, s) \<Rightarrow>
              if status = MI_OK
              then let serNumCheck = foldl (\<lambda>c i. c XOR serNum i) 0 [0..<4]
                   in if serNumCheck \<noteq> serNum 4 then (MI_ERR, serNum, s)
                      else (status, serNum, s)
              else (status, serNum, s)))"

text \<open>
  \<^verbatim>\<open>MFRC522_Check\<close> sets the file's static \<^verbatim>\<open>Checking_Card\<close> around the request.
\<close>

definition MFRC522_Check :: "buf \<Rightarrow> u16 \<Rightarrow> u16 \<Rightarrow> hal \<Rightarrow> int \<times> buf \<times> hal" where
  "MFRC522_Check id' backBits unLen s =
     (let s = MFRC522_ClearBitMask MFRC522_REG_STATUS2 (push_bit 3 1) s;
          s = s\<lparr>Checking_Card := True\<rparr>
      in case MFRC522_Request 0x52 id' backBits s of
        (status, id', s) \<Rightarrow>
          let s = s\<lparr>Checking_Card := False\<rparr>
          in if status = MI_OK then MFRC522_Anticoll id' unLen s
             else (status, id', s))"

text \<open>Lines 305 to 312: the select frame with its CRC, in a zeroed \<^verbatim>\<open>buffer[32]\<close>.\<close>

definition SelectTag_frame :: "buf \<Rightarrow> hal \<Rightarrow> buf \<times> hal" where
  "SelectTag_frame serNum s =
     (let buffer = (\<lambda>i. 0);
          buffer = buffer(0 := PICC_SElECTTAG, 1 := 0x70);
          buffer = foldl (\<lambda>b i. b(i + 2 := serNum i)) buffer [0..<5]
      in case MFRC522_CalculateCRC buffer 7 (buf_from buffer 7) s of
        (out, s) \<Rightarrow> (buf_back buffer 7 out, s))"

definition MFRC522_SelectTag :: "buf \<Rightarrow> u16 \<Rightarrow> hal \<Rightarrow> u8 \<times> hal" where
  "MFRC522_SelectTag serNum recvBits s =
     (case SelectTag_frame serNum s of
        (buffer, s) \<Rightarrow>
          (case MFRC522_ToCard PCD_TRANSCEIVE buffer 9 buffer recvBits s of
            (status, buffer, recvBits, s) \<Rightarrow>
              if status = MI_OK \<and> recvBits = 0x18 then (buffer 0, s) else (0, s)))"

text \<open>Lines 332 to 339: the twelve bytes of the authentication frame.\<close>

definition Auth_frame :: "u8 \<Rightarrow> u8 \<Rightarrow> buf \<Rightarrow> buf \<Rightarrow> buf \<Rightarrow> buf" where
  "Auth_frame authMode BlockAddr Sectorkey serNum buff =
     (let buff = buff(0 := authMode, 1 := BlockAddr);
          buff = foldl (\<lambda>b i. b(i + 2 := Sectorkey i)) buff [0..<6]
      in foldl (\<lambda>b i. b(i + 8 := serNum i)) buff [0..<4])"

text \<open>
  The status-2 register is read only when the transceive returned \<^verbatim>\<open>MI_OK\<close>:
  \<^verbatim>\<open>||\<close> does not evaluate its right operand otherwise.
\<close>

definition MFRC522_Auth :: "u8 \<Rightarrow> u8 \<Rightarrow> buf \<Rightarrow> buf \<Rightarrow> uninit \<Rightarrow> hal \<Rightarrow> int \<times> hal" where
  "MFRC522_Auth authMode BlockAddr Sectorkey serNum u s =
     (let buff = Auth_frame authMode BlockAddr Sectorkey serNum (buff0 u)
      in case MFRC522_ToCard PCD_AUTHENT buff 12 buff (recvBits0 u) s of
        (status, buff, recvBits, s) \<Rightarrow>
          if status \<noteq> MI_OK then (MI_ERR, s)
          else (case MFRC522_ReadRegister MFRC522_REG_STATUS2 s of
            (v, s) \<Rightarrow> if v AND 0x08 = 0 then (MI_ERR, s) else (status, s)))"



text \<open>Lines 372 to 374: the write command frame with its CRC.\<close>

definition Write_frame :: "u8 \<Rightarrow> buf \<Rightarrow> hal \<Rightarrow> buf \<times> hal" where
  "Write_frame blockAddr buff s =
     (let buff = buff(0 := PICC_WRITE, 1 := blockAddr)
      in case MFRC522_CalculateCRC buff 2 (buf_from buff 2) s of
        (out, s) \<Rightarrow> (buf_back buff 2 out, s))"

text \<open>Lines 383 to 386: the sixteen data bytes with their CRC.\<close>

definition Write_data_frame :: "buf \<Rightarrow> buf \<Rightarrow> hal \<Rightarrow> buf \<times> hal" where
  "Write_data_frame writeData buff s =
     (let buff = foldl (\<lambda>b i. b(i := writeData i)) buff [0..<16]
      in case MFRC522_CalculateCRC buff 16 (buf_from buff 16) s of
        (out, s) \<Rightarrow> (buf_back buff 16 out, s))"

text \<open>The label \<^verbatim>\<open>ERROR\<close>, lines 397 to 403.\<close>

definition Write_ERROR :: "u16 \<Rightarrow> buf \<Rightarrow> int" where
  "Write_ERROR recvBits buff =
     (if recvBits = 4 then uint (buff 0 AND 0x0F) else MI_ERR)"

definition MFRC522_Write :: "u8 \<Rightarrow> buf \<Rightarrow> uninit \<Rightarrow> hal \<Rightarrow> int \<times> hal" where
  "MFRC522_Write blockAddr writeData u s =
     (case Write_frame blockAddr (buff0 u) s of
        (buff, s) \<Rightarrow>
          (case MFRC522_ToCard PCD_TRANSCEIVE buff 4 buff (recvBits0 u) s of
            (status, buff, recvBits, s) \<Rightarrow>
              if status \<noteq> MI_OK \<or> recvBits \<noteq> 4 \<or> buff 0 AND 0x0F \<noteq> 0x0A
              then (Write_ERROR recvBits buff, s)
              else if status = MI_OK
              then (case Write_data_frame writeData buff s of
                (buff, s) \<Rightarrow>
                  (case MFRC522_ToCard PCD_TRANSCEIVE buff 18 buff recvBits s of
                    (status, buff, recvBits, s) \<Rightarrow>
                      if status \<noteq> MI_OK \<or> recvBits \<noteq> 4 \<or> buff 0 AND 0x0F \<noteq> 0x0A
                      then (Write_ERROR recvBits buff, s)
                      else (MI_OK, s)))
              else (MI_OK, s)))"

subsection \<open>mfrc522\_debug.c: writing and cleaning a block\<close>

text \<open>
  \<^verbatim>\<open>blockaddr\<close> is a \<^verbatim>\<open>const char\<close>, which is unsigned on the ARM Linux of the
  Raspberry Pi the kit is for, so it is a \<open>u8\<close> here. \<open>len\<close> is the
  \<^verbatim>\<open>strlen\<close> of the data at the only call, a \<open>nat\<close>. \<open>ua\<close> and \<open>uw\<close> are the
  uninitialised locals of the \<^verbatim>\<open>MFRC522_Auth\<close> and the \<^verbatim>\<open>MFRC522_Write\<close> that
  the function calls.
\<close>

definition SectorKeyA :: buf where
  "SectorKeyA = (\<lambda>i. 0xFF)"

definition MFRC522_Debug_Clean :: "buf \<Rightarrow> u8 \<Rightarrow> uninit \<Rightarrow> uninit \<Rightarrow> hal \<Rightarrow> int \<times> hal" where
  "MFRC522_Debug_Clean CardID blockaddr ua uw s =
     (case MFRC522_Auth PICC_AUTHENT1A blockaddr SectorKeyA CardID ua s of
        (ret, s) \<Rightarrow>
          if ret = MI_OK
          then let buffer = (\<lambda>i. 0)
               in if blockaddr = 0 \<or> blockaddr mod 4 = 0x03 then (- 1, s)
                  else (case MFRC522_Write blockaddr buffer uw s of
                    (ret, s) \<Rightarrow> if ret = MI_OK then (0, s) else (ret, s))
          else (- 1, s))"

definition MFRC522_Debug_Write ::
  "buf \<Rightarrow> u8 \<Rightarrow> buf \<Rightarrow> nat \<Rightarrow> uninit \<Rightarrow> uninit \<Rightarrow> hal \<Rightarrow> int \<times> hal" where
  "MFRC522_Debug_Write CardID blockaddr Write_Data len ua uw s =
     (case MFRC522_Auth PICC_AUTHENT1A blockaddr SectorKeyA CardID ua s of
        (ret, s) \<Rightarrow>
          if ret = MI_OK
          then let buffer = (\<lambda>i. 0)
               in if blockaddr = 0 \<or> blockaddr mod 4 = 0x03 then (- 1, s)
                  else let buffer = (\<lambda>i. if i < (if len \<le> 16 then len else 16)
                                           then Write_Data i else buffer i)
                       in (case MFRC522_Write blockaddr buffer uw s of
                         (ret, s) \<Rightarrow> if ret = MI_OK then (0, s) else (ret, s))
          else (- 1, s))"

subsection \<open>Chips to run the driver against\<close>

text \<open>
  \<open>hal0 c\<close> is the driver before its first transfer, wired to the chip \<open>c\<close>.
  \<open>const_chip regs\<close> answers every read of register \<open>a\<close> with \<open>regs a\<close>, at any
  time.
\<close>

definition hal0 :: "(nat \<Rightarrow> u8 \<Rightarrow> u8) \<Rightarrow> hal" where
  "hal0 c = \<lparr>chip = c, xfers = 0, trace = [], slept = 0, Checking_Card = False\<rparr>"

definition const_chip :: "(u8 \<Rightarrow> u8) \<Rightarrow> nat \<Rightarrow> u8 \<Rightarrow> u8" where
  "const_chip regs = (\<lambda>k a. regs a)"

definition zero_buf :: buf where
  "zero_buf = (\<lambda>i. 0)"

definition zero_uninit :: uninit where
  "zero_uninit = \<lparr>recvBits0 = 0, buff0 = zero_buf\<rparr>"

text \<open>
  \<open>fifo_chip regs k0 bytes\<close> is \<open>const_chip regs\<close>, except that a read of the FIFO
  data register issued as transfer \<open>k0 + j\<close> answers the \<open>j\<close>-th of \<open>bytes\<close>.
\<close>

definition fifo_chip :: "(u8 \<Rightarrow> u8) \<Rightarrow> nat \<Rightarrow> u8 list \<Rightarrow> nat \<Rightarrow> u8 \<Rightarrow> u8" where
  "fifo_chip regs k0 bytes =
     (\<lambda>k a. if a = MFRC522_REG_FIFO_DATA \<and> k0 \<le> k \<and> k - k0 < length bytes
            then bytes ! (k - k0) else regs a)"

text \<open>
  \<open>card_regs irq err level control\<close> is a register file in which the interrupt, error,
  FIFO-level and control registers hold the four given values, the CRC coprocessor is
  done (\<open>DivIrqReg = 0x04\<close>) and the crypto unit is on (\<open>Status2Reg = 0x08\<close>).
\<close>

definition card_regs :: "u8 \<Rightarrow> u8 \<Rightarrow> u8 \<Rightarrow> u8 \<Rightarrow> u8 \<Rightarrow> u8" where
  "card_regs irq err level control =
     (\<lambda>a. if a = MFRC522_REG_COMM_IRQ then irq
          else if a = MFRC522_REG_ERROR then err
          else if a = MFRC522_REG_FIFO_LEVEL then level
          else if a = MFRC522_REG_CONTROL then control
          else if a = MFRC522_REG_DIV_IRQ then 0x04
          else if a = MFRC522_REG_STATUS2 then 0x08
          else 0)"

text \<open>
  \<open>late_chip\<close> shows \<open>RxIRq\<close> and \<open>IdleIRq\<close> (0x30) in the interrupt register at
  transfer 2009 only, and 0 in every register otherwise. A transceive of one byte from
  \<open>hal0\<close> spends transfers 0 to 9 before its loop, so transfer 2009 is the 2000th poll.
\<close>

definition late_chip :: "nat \<Rightarrow> u8 \<Rightarrow> u8" where
  "late_chip = (\<lambda>k a. if a = MFRC522_REG_COMM_IRQ \<and> k = 2009 then 0x30 else 0)"

text \<open>
  \<open>sak_regs level\<close>: a card has answered without error, \<open>level\<close> bytes wait in the
  FIFO, the last one complete, and every byte read from the FIFO is 0x08.
\<close>

definition sak_regs :: "u8 \<Rightarrow> u8 \<Rightarrow> u8" where
  "sak_regs level = (card_regs 0x30 0 level 0)(MFRC522_REG_FIFO_DATA := 0x08)"

text \<open>
  \<open>uid_chip bcc\<close> answers an anticollision started from \<open>hal0\<close>, whose first FIFO read
  is transfer 18, with the five bytes DE AD BE EF \<open>bcc\<close>.
\<close>

definition uid_chip :: "u8 \<Rightarrow> nat \<Rightarrow> u8 \<Rightarrow> u8" where
  "uid_chip bcc = fifo_chip (card_regs 0x30 0 5 0) 18 [0xDE, 0xAD, 0xBE, 0xEF, bcc]"

text \<open>
  \<open>auth_regs irq status2\<close>: no error, an empty FIFO, and the given interrupt and
  status-2 registers.
\<close>

definition auth_regs :: "u8 \<Rightarrow> u8 \<Rightarrow> u8 \<Rightarrow> u8" where
  "auth_regs irq status2 = (card_regs irq 0 0 0)(MFRC522_REG_STATUS2 := status2)"

text \<open>
  \<open>crc_regs d\<close>: the divider interrupt register reads \<open>d\<close>, the CRC result registers
  read 0xCD (low) and 0xAB (high).
\<close>

definition crc_regs :: "u8 \<Rightarrow> u8 \<Rightarrow> u8" where
  "crc_regs d =
     (\<lambda>a. if a = MFRC522_REG_DIV_IRQ then d
          else if a = MFRC522_REG_CRC_RESULT_L then 0xCD
          else if a = MFRC522_REG_CRC_RESULT_M then 0xAB
          else 0)"




subsection \<open>What the poll loop sees\<close>

text \<open>
  \<open>irq_seen waitIRq n\<close>: the value \<open>n\<close> of the interrupt register ends the poll loop,
  because the timer bit or a bit of the wait mask is set. Every iteration of the loop is
  one transfer, so the loop entered in state \<open>s\<close> reads \<open>ToCard_polled s k\<close> in its
  iteration number \<open>k\<close>, counted from 0.
\<close>

definition irq_seen :: "u8 \<Rightarrow> u8 \<Rightarrow> bool" where
  "irq_seen waitIRq n = (n AND 0x01 \<noteq> 0 \<or> n AND waitIRq \<noteq> 0)"

definition ToCard_polled :: "hal \<Rightarrow> nat \<Rightarrow> u8" where
  "ToCard_polled s k = chip s (xfers s + k) MFRC522_REG_COMM_IRQ"

text \<open>
  In the same way the CRC wait loop entered in state \<open>s\<close> reads
  \<open>CalculateCRC_polled s k\<close> from the divider interrupt register in its iteration \<open>k\<close>.
\<close>

definition CalculateCRC_polled :: "hal \<Rightarrow> nat \<Rightarrow> u8" where
  "CalculateCRC_polled s k = chip s (xfers s + k) MFRC522_REG_DIV_IRQ"

section \<open>Properties\<close>

subsection \<open>Unfolding the driver\<close>

lemmas hal_defs = MFRC522_WriteRegister_def MFRC522_ReadRegister_def MFRC522_HAL_write_def
  MFRC522_HAL_read_def MFRC522_HAL_Delay_def MFRC522_SetBitMask_def MFRC522_ClearBitMask_def

lemmas run_defs = hal_defs hal0_def const_chip_def fifo_chip_def card_regs_def zero_buf_def
  zero_uninit_def FIFO_send_loop.simps ToCard_wait_loop.simps ToCard_recv_loop.simps
  CalculateCRC_wait_loop.simps ToCard_start_def ToCard_irqEn_def ToCard_waitIRq_def
  ToCard_backLen_def ToCard_recv_count_def MFRC522_ToCard_def CalculateCRC_start_def
  MFRC522_CalculateCRC_def buf_from_def buf_back_def Let_def irq_seen_def ToCard_polled_def

lemma read_frame:
  assumes "MFRC522_ReadRegister a s = (v, s1)"
  shows "v = chip s (xfers s) a" and "chip s1 = chip s" and "xfers s1 = Suc (xfers s)"
    and "trace s1 = RegRead a v # trace s" and "Checking_Card s1 = Checking_Card s"
  using assms by (auto simp: hal_defs Let_def)

lemma wait_loop_rec:
  assumes "MFRC522_ReadRegister MFRC522_REG_COMM_IRQ
             (MFRC522_HAL_Delay (if Checking_Card s then 16 else 20) s) = (n, s1)"
    and "i - 1 \<noteq> 0 \<and> n AND 0x01 = 0 \<and> n AND w = 0"
  shows "ToCard_wait_loop w i s = ToCard_wait_loop w (i - 1) s1"
  by (subst ToCard_wait_loop.simps) (simp only: assms(1) prod.case if_P [OF assms(2)])

lemma wait_loop_stop:
  assumes "MFRC522_ReadRegister MFRC522_REG_COMM_IRQ
             (MFRC522_HAL_Delay (if Checking_Card s then 16 else 20) s) = (n, s1)"
    and "\<not> (i - 1 \<noteq> 0 \<and> n AND 0x01 = 0 \<and> n AND w = 0)"
  shows "ToCard_wait_loop w i s = (i - 1, n, s1)"
  by (subst ToCard_wait_loop.simps) (simp only: assms(1) prod.case if_not_P [OF assms(2)])

lemma recv_loop_rec:
  assumes "i < unat n" and "MFRC522_ReadRegister MFRC522_REG_FIFO_DATA s = (v, s1)"
  shows "ToCard_recv_loop n i b s = ToCard_recv_loop n (Suc i) (b(i := v)) s1"
  by (subst ToCard_recv_loop.simps) (simp only: assms(2) prod.case if_P [OF assms(1)])

lemma recv_loop_stop:
  assumes "\<not> i < unat n"
  shows "ToCard_recv_loop n i b s = (b, s)"
  by (subst ToCard_recv_loop.simps) (simp only: if_not_P [OF assms])

subsection \<open>The chip stays the same chip\<close>

lemma chip_FIFO_send_loop [simp]: "chip (FIFO_send_loop d l i s) = chip s"
  by (induction d l i s rule: FIFO_send_loop.induct)
     (subst FIFO_send_loop.simps, simp add: hal_defs)

lemma chip_ToCard_start [simp]: "chip (ToCard_start c d l s) = chip s"
  by (simp add: ToCard_start_def hal_defs Let_def)

lemma chip_wait_loop [simp]: "chip (snd (snd (ToCard_wait_loop w i s))) = chip s"
proof (induction w i s rule: ToCard_wait_loop.induct)
  case (1 w i s)
  obtain n s1 where r: "MFRC522_ReadRegister MFRC522_REG_COMM_IRQ
      (MFRC522_HAL_Delay (if Checking_Card s then 16 else 20) s) = (n, s1)"
    by force
  have c: "chip s1 = chip s" using read_frame(2) [OF r] by (simp add: hal_defs)
  show ?case
  proof (cases "i - 1 \<noteq> 0 \<and> n AND 0x01 = 0 \<and> n AND w = 0")
    case True
    from "1.IH" [OF r [symmetric] True] c show ?thesis
      by (simp only: wait_loop_rec [OF r True])
  next
    case False
    show ?thesis by (simp only: wait_loop_stop [OF r False] snd_conv c)
  qed
qed

lemma chip_recv_loop [simp]: "chip (snd (ToCard_recv_loop n i b s)) = chip s"
proof (induction n i b s rule: ToCard_recv_loop.induct)
  case (1 n i b s)
  obtain v s1 where r: "MFRC522_ReadRegister MFRC522_REG_FIFO_DATA s = (v, s1)" by force
  show ?case
  proof (cases "i < unat n")
    case True
    from "1.IH" [OF True r [symmetric]] read_frame(2) [OF r] show ?thesis
      by (simp only: recv_loop_rec [OF True r])
  next
    case False
    show ?thesis by (simp only: recv_loop_stop [OF False] snd_conv)
  qed
qed

lemma chip_ToCard [simp]: "chip (snd (snd (snd (MFRC522_ToCard c d l b bl s)))) = chip s"
proof -
  obtain i n s1 where w:
    "ToCard_wait_loop (ToCard_waitIRq c) 2000 (ToCard_start c d l s) = (i, n, s1)"
    by (metis prod_cases3)
  have "chip s1 = chip s"
    using chip_wait_loop [of "ToCard_waitIRq c" 2000 "ToCard_start c d l s"] w by simp
  moreover have "chip x2 = chip y" if "ToCard_recv_loop m 0 b y = (x1, x2)" for m y x1 x2
    using chip_recv_loop [of m 0 b y] that by simp
  ultimately show ?thesis
    using w by (auto simp add: MFRC522_ToCard_def hal_defs Let_def split: prod.splits)
qed

subsection \<open>The poll loop\<close>

lemma poll_step:
  assumes "MFRC522_ReadRegister MFRC522_REG_COMM_IRQ (MFRC522_HAL_Delay d s) = (n, s1)"
  shows "n = ToCard_polled s 0" and "ToCard_polled s1 k = ToCard_polled s (Suc k)"
  using assms by (auto simp: hal_defs ToCard_polled_def Let_def)

lemma u16_pred: "(x::u16) \<noteq> 0 \<Longrightarrow> unat (x - 1) = unat x - 1 \<and> 0 < unat x"
  by (simp add: unat_minus_one unat_gt_0)

text \<open>No flag in the first \<open>unat (i - 1)\<close> polls: the counter runs down to 0.\<close>

lemma wait_loop_timeout:
  assumes "\<forall>k < unat (i - 1). \<not> irq_seen w (ToCard_polled s k)"
  shows "fst (ToCard_wait_loop w i s) = 0"
  using assms
proof (induction w i s rule: ToCard_wait_loop.induct)
  case (1 w i s)
  obtain n s1 where r: "MFRC522_ReadRegister MFRC522_REG_COMM_IRQ
      (MFRC522_HAL_Delay (if Checking_Card s then 16 else 20) s) = (n, s1)"
    by force
  note p = poll_step [OF r]
  show ?case
  proof (cases "i - 1 \<noteq> 0 \<and> n AND 0x01 = 0 \<and> n AND w = 0")
    case True
    then have nz: "i - 1 \<noteq> 0" by simp
    have "\<forall>k < unat (i - 1 - 1). \<not> irq_seen w (ToCard_polled s1 k)"
    proof (intro allI impI)
      fix k assume "k < unat (i - 1 - 1)"
      then have "Suc k < unat (i - 1)" using u16_pred [OF nz] by simp
      then show "\<not> irq_seen w (ToCard_polled s1 k)" using "1.prems" p(2) by simp
    qed
    then have "fst (ToCard_wait_loop w (i - 1) s1) = 0"
      using "1.IH" r [symmetric] True by blast
    then show ?thesis by (simp only: wait_loop_rec [OF r True])
  next
    case False
    have "i - 1 = 0"
    proof (rule ccontr)
      assume nz: "i - 1 \<noteq> 0"
      then have "\<not> irq_seen w (ToCard_polled s 0)" using "1.prems" u16_pred [OF nz] by simp
      then show False using False nz p(1) by (simp add: irq_seen_def)
    qed
    then show ?thesis by (simp only: wait_loop_stop [OF r False] fst_conv)
  qed
qed

text \<open>
  The first flag in poll \<open>k\<close>, before the last one: the loop stops there, with the
  counter not 0 and that value in \<open>n\<close>.
\<close>

lemma wait_loop_seen:
  assumes "k < unat (i - 1)" and "irq_seen w (ToCard_polled s k)"
    and "\<forall>j < k. \<not> irq_seen w (ToCard_polled s j)"
  shows "fst (ToCard_wait_loop w i s) \<noteq> 0 \<and>
         fst (snd (ToCard_wait_loop w i s)) = ToCard_polled s k"
  using assms
proof (induction w i s arbitrary: k rule: ToCard_wait_loop.induct)
  case (1 w i s)
  obtain n s1 where r: "MFRC522_ReadRegister MFRC522_REG_COMM_IRQ
      (MFRC522_HAL_Delay (if Checking_Card s then 16 else 20) s) = (n, s1)"
    by force
  note p = poll_step [OF r]
  from "1.prems"(1) have nz: "i - 1 \<noteq> 0" by (auto simp: unat_gt_0)
  show ?case
  proof (cases "n AND 0x01 = 0 \<and> n AND w = 0")
    case True
    then have go: "i - 1 \<noteq> 0 \<and> n AND 0x01 = 0 \<and> n AND w = 0" using nz by simp
    from True have "\<not> irq_seen w (ToCard_polled s 0)" using p(1) by (simp add: irq_seen_def)
    then have "k \<noteq> 0" using "1.prems"(2) by (cases "k = 0") auto
    then obtain k' where k: "k = Suc k'" by (cases k) auto
    have a: "k' < unat (i - 1 - 1)" using "1.prems"(1) k u16_pred [OF nz] by simp
    have b: "irq_seen w (ToCard_polled s1 k')" using "1.prems"(2) k p(2) by simp
    have c: "\<forall>j < k'. \<not> irq_seen w (ToCard_polled s1 j)" using "1.prems"(3) k p(2) by auto
    have "fst (ToCard_wait_loop w (i - 1) s1) \<noteq> 0 \<and>
          fst (snd (ToCard_wait_loop w (i - 1) s1)) = ToCard_polled s1 k'"
      using "1.IH" [OF r [symmetric] go a b c] .
    then show ?thesis by (simp add: wait_loop_rec [OF r go] p(2) k)
  next
    case False
    then have stop: "\<not> (i - 1 \<noteq> 0 \<and> n AND 0x01 = 0 \<and> n AND w = 0)" by simp
    from False have "irq_seen w (ToCard_polled s 0)" using p(1) by (auto simp add: irq_seen_def)
    then have "k = 0" using "1.prems"(3) by (cases k) auto
    then show ?thesis using nz p(1) by (simp only: wait_loop_stop [OF r stop] fst_conv snd_conv) simp
  qed
qed

subsection \<open>The status of a transceive\<close>

lemma ToCard_classify:
  assumes "ToCard_wait_loop (ToCard_waitIRq command) 2000
             (ToCard_start command sendData sendLen s) = (i, n, s1)"
    and "MFRC522_ReadRegister MFRC522_REG_ERROR
           (MFRC522_ClearBitMask MFRC522_REG_BIT_FRAMING 0x80 s1) = (e, s2)"
  shows "fst (MFRC522_ToCard command sendData sendLen backData backLen s) =
           (if i = 0 then MI_ERR else if e AND 0x1B \<noteq> 0 then MI_ERR
            else if n AND ToCard_irqEn command AND 0x01 \<noteq> 0 then MI_NOTAGERR else MI_OK)"
  using assms
  by (simp add: MFRC522_ToCard_def Let_def split: prod.splits)

lemma ToCard_timeout:
  assumes "ToCard_wait_loop (ToCard_waitIRq command) 2000
             (ToCard_start command sendData sendLen s) = (0, n, s1)"
  shows "MFRC522_ToCard command sendData sendLen backData backLen s =
           (MI_ERR, backData, backLen, MFRC522_ClearBitMask MFRC522_REG_BIT_FRAMING 0x80 s1)"
  using assms
  by (simp add: MFRC522_ToCard_def Let_def)

text \<open>
  \<^bold>\<open>C1\<close> (as amended). Let the poll loop of a call of \<^verbatim>\<open>MFRC522_ToCard\<close> start in
  state \<open>s0\<close> and end with the counter \<open>i\<close> and the interrupt value \<open>n\<close>, and let \<open>e\<close>
  be what the error register reads after the start-send bit is cleared.
  If none of the first 1999 polls shows the timer bit or a bit of the command's wait
  mask, the call returns \<^verbatim>\<open>MI_ERR\<close> and leaves \<^verbatim>\<open>backData\<close> and \<^verbatim>\<open>*backLen\<close> as
  they were; what the 2000th poll reads does not matter.
  If poll \<open>k < 1999\<close> is the first that shows one of these bits, then \<open>n\<close> is the value
  of that poll and the status is \<^verbatim>\<open>MI_ERR\<close> when \<open>e\<close> has a bit of 0x1B set, else
  \<^verbatim>\<open>MI_NOTAGERR\<close> when \<open>n\<close>, masked with the command's interrupt-enable mask, has
  bit 0 set, else \<^verbatim>\<open>MI_OK\<close>.
\<close>

theorem ToCard_status:
  assumes "s0 = ToCard_start command sendData sendLen s"
    and "waitIRq = ToCard_waitIRq command"
    and "ToCard_wait_loop waitIRq 2000 s0 = (i, n, s1)"
    and "MFRC522_ReadRegister MFRC522_REG_ERROR
           (MFRC522_ClearBitMask MFRC522_REG_BIT_FRAMING 0x80 s1) = (e, s2)"
    and "MFRC522_ToCard command sendData sendLen backData backLen s =
           (status, backData', backLen', s')"
  shows "((\<forall>k<1999. \<not> irq_seen waitIRq (ToCard_polled s0 k)) \<longrightarrow>
            status = MI_ERR \<and> backData' = backData \<and> backLen' = backLen) \<and>
         (\<forall>k<1999. irq_seen waitIRq (ToCard_polled s0 k) \<and>
              (\<forall>j<k. \<not> irq_seen waitIRq (ToCard_polled s0 j)) \<longrightarrow>
            n = ToCard_polled s0 k \<and>
            status = (if e AND 0x1B \<noteq> 0 then MI_ERR
                      else if n AND ToCard_irqEn command AND 0x01 \<noteq> 0 then MI_NOTAGERR
                      else MI_OK))"
proof -
  have budget: "unat (2000 - 1 :: u16) = 1999" by simp
  note loop = assms(3) [unfolded assms(1,2)]
  have st: "status = (if i = 0 then MI_ERR else if e AND 0x1B \<noteq> 0 then MI_ERR
            else if n AND ToCard_irqEn command AND 0x01 \<noteq> 0 then MI_NOTAGERR else MI_OK)"
    using ToCard_classify [OF loop assms(4), of backData backLen] assms(5) by simp
  have a: "status = MI_ERR \<and> backData' = backData \<and> backLen' = backLen"
    if "\<forall>k<1999. \<not> irq_seen waitIRq (ToCard_polled s0 k)"
  proof -
    have "fst (ToCard_wait_loop waitIRq 2000 s0) = 0"
      using wait_loop_timeout [of 2000 waitIRq s0] that budget by simp
    then have "i = 0" using assms(3) by simp
    then show ?thesis
      using ToCard_timeout [of command sendData sendLen s n s1 backData backLen] loop assms(5)
      by simp
  qed
  have b: "n = ToCard_polled s0 k \<and>
            status = (if e AND 0x1B \<noteq> 0 then MI_ERR
                      else if n AND ToCard_irqEn command AND 0x01 \<noteq> 0 then MI_NOTAGERR
                      else MI_OK)"
    if "k < 1999" and "irq_seen waitIRq (ToCard_polled s0 k)"
      and "\<forall>j<k. \<not> irq_seen waitIRq (ToCard_polled s0 j)" for k
  proof -
    have "fst (ToCard_wait_loop waitIRq 2000 s0) \<noteq> 0 \<and>
          fst (snd (ToCard_wait_loop waitIRq 2000 s0)) = ToCard_polled s0 k"
      using wait_loop_seen [of k 2000 waitIRq s0] that budget by simp
    then have "i \<noteq> 0" and "n = ToCard_polled s0 k" using assms(3) by simp_all
    then show ?thesis using st by simp
  qed
  show ?thesis using a b by blast
qed

text \<open>
  A run of the theorem: the chip shows \<open>RxIRq\<close> and \<open>IdleIRq\<close> in the first poll and
  no error, and the transceive returns \<^verbatim>\<open>MI_OK\<close>.
\<close>

theorem ToCard_status_witness:
  "irq_seen (ToCard_waitIRq PCD_TRANSCEIVE)
     (ToCard_polled
        (ToCard_start PCD_TRANSCEIVE zero_buf 1 (hal0 (const_chip (card_regs 0x30 0 2 0)))) 0) \<and>
   fst (MFRC522_ToCard PCD_TRANSCEIVE zero_buf 1 zero_buf 0
          (hal0 (const_chip (card_regs 0x30 0 2 0)))) = MI_OK"
proof -
  let ?s = "hal0 (const_chip (card_regs 0x30 0 2 0))"
  let ?w = "ToCard_waitIRq PCD_TRANSCEIVE"
  let ?start = "ToCard_start PCD_TRANSCEIVE zero_buf 1 ?s"
  let ?r = "ToCard_wait_loop ?w 2000 ?start"
  let ?e = "MFRC522_ReadRegister MFRC522_REG_ERROR
              (MFRC522_ClearBitMask MFRC522_REG_BIT_FRAMING 0x80 (snd (snd ?r)))"
  let ?t = "MFRC522_ToCard PCD_TRANSCEIVE zero_buf 1 zero_buf 0 ?s"
  have seen: "irq_seen ?w (ToCard_polled ?start 0)"
    by (simp add: run_defs)
  have r: "?r = (fst ?r, fst (snd ?r), snd (snd ?r))" by simp
  have e: "?e = (fst ?e, snd ?e)" by simp
  have t: "?t = (fst ?t, fst (snd ?t), fst (snd (snd ?t)), snd (snd (snd ?t)))" by simp
  have "fst ?t = (if fst ?e AND 0x1B \<noteq> 0 then MI_ERR
                  else if fst (snd ?r) AND ToCard_irqEn PCD_TRANSCEIVE AND 0x01 \<noteq> 0
                       then MI_NOTAGERR else MI_OK)"
    using ToCard_status [OF refl refl r e t, THEN conjunct2, rule_format, of 0] seen by simp
  also have "\<dots> = MI_OK"
    by (simp add: run_defs)
  finally show ?thesis using seen by simp
qed

text \<open>
  Against C1 as it is written: with \<open>late_chip\<close> the 2000th poll reads 0x30, so the
  loop does not run out of its budget without a bit of the wait mask being set; the
  timer bit is clear in that value and the error register reads 0. The sentence of the
  claim makes this a success. The counter is 0 after the 2000th poll all the same, and
  the call returns \<^verbatim>\<open>MI_ERR\<close>.
\<close>

theorem ToCard_status_counterexample:
  "irq_seen (ToCard_waitIRq PCD_TRANSCEIVE)
     (ToCard_polled (ToCard_start PCD_TRANSCEIVE zero_buf 1 (hal0 late_chip)) 1999) \<and>
   ToCard_polled (ToCard_start PCD_TRANSCEIVE zero_buf 1 (hal0 late_chip)) 1999
     AND ToCard_irqEn PCD_TRANSCEIVE AND 0x01 = 0 \<and>
   fst (MFRC522_ReadRegister MFRC522_REG_ERROR
          (snd (snd (snd (MFRC522_ToCard PCD_TRANSCEIVE zero_buf 1 zero_buf 0 (hal0 late_chip))))))
     AND 0x1B = 0 \<and>
   fst (MFRC522_ToCard PCD_TRANSCEIVE zero_buf 1 zero_buf 0 (hal0 late_chip)) = MI_ERR"
proof -
  let ?w = "ToCard_waitIRq PCD_TRANSCEIVE"
  let ?start = "ToCard_start PCD_TRANSCEIVE zero_buf 1 (hal0 late_chip)"
  let ?r = "ToCard_wait_loop ?w 2000 ?start"
  let ?t = "MFRC522_ToCard PCD_TRANSCEIVE zero_buf 1 zero_buf 0 (hal0 late_chip)"
  have p: "ToCard_polled ?start k = (if k = 1999 then 0x30 else 0)" for k
    by (simp add: run_defs late_chip_def)
  have "\<forall>k<unat (2000 - 1 :: u16). \<not> irq_seen ?w (ToCard_polled ?start k)"
    by (simp add: p irq_seen_def)
  then have "fst ?r = 0" by (rule wait_loop_timeout)
  then have "?r = (0, fst (snd ?r), snd (snd ?r))"
    by (metis prod.collapse)
  then have "fst ?t = MI_ERR"
    by (simp only: ToCard_timeout fst_conv)
  moreover have "fst (MFRC522_ReadRegister MFRC522_REG_ERROR (snd (snd (snd ?t)))) = 0"
    by (simp add: hal_defs Let_def hal0_def) (simp add: late_chip_def)
  ultimately show ?thesis
    by (simp add: p irq_seen_def ToCard_waitIRq_def ToCard_irqEn_def)
qed

subsection \<open>Authentication never sees ``no tag''\<close>



subsection \<open>Anticollision\<close>

lemma serNumCheck_eq:
  "foldl (\<lambda>c i. c XOR f i) (0::u8) [0..<4] = f 0 XOR f 1 XOR f 2 XOR f 3"
proof -
  have "[0..<4] = [0, 1, 2, 3::nat]" by (simp add: upt_rec)
  then show ?thesis by (simp add: xor.assoc)
qed

text \<open>
  \<^bold>\<open>C5\<close>. When the transceive of \<^verbatim>\<open>MFRC522_Anticoll\<close> returns \<^verbatim>\<open>MI_OK\<close>, the
  function returns \<^verbatim>\<open>MI_OK\<close> if byte 4 of the buffer the transceive left is the XOR
  of bytes 0 to 3, and \<^verbatim>\<open>MI_ERR\<close> if it is not; in both cases the caller's buffer is
  the one the transceive left, the five bytes included.
\<close>

theorem Anticoll_checksum:
  assumes "Anticoll_frame serNum s = (frame, s1)"
    and "MFRC522_ToCard PCD_TRANSCEIVE frame 2 frame unLen s1 = (MI_OK, backData, backLen, s2)"
  shows "MFRC522_Anticoll serNum unLen s =
           (if backData 4 = backData 0 XOR backData 1 XOR backData 2 XOR backData 3
            then MI_OK else MI_ERR, backData, s2)"
  using assms by (auto simp add: MFRC522_Anticoll_def serNumCheck_eq)

text \<open>
  Two runs: the card sends DE AD BE EF with the right check byte 0x22, and with the
  wrong one 0x23. The second returns \<^verbatim>\<open>MI_ERR\<close> with the five bytes in the buffer.
\<close>

theorem Anticoll_checksum_witness:
  "(case MFRC522_Anticoll zero_buf 0 (hal0 (uid_chip 0x22)) of
      (status, serNum, s) \<Rightarrow>
        (status, serNum 0, serNum 1, serNum 2, serNum 3, serNum 4)) =
     (MI_OK, 0xDE, 0xAD, 0xBE, 0xEF, 0x22) \<and>
   (case MFRC522_Anticoll zero_buf 0 (hal0 (uid_chip 0x23)) of
      (status, serNum, s) \<Rightarrow>
        (status, serNum 0, serNum 1, serNum 2, serNum 3, serNum 4)) =
     (MI_ERR, 0xDE, 0xAD, 0xBE, 0xEF, 0x23)"
proof -
  have run: "(case MFRC522_Anticoll zero_buf 0 (hal0 (uid_chip bcc)) of
      (status, serNum, s) \<Rightarrow>
        (status, serNum 0, serNum 1, serNum 2, serNum 3, serNum 4)) =
     (if bcc = 0x22 then MI_OK else MI_ERR, 0xDE, 0xAD, 0xBE, 0xEF, bcc)" for bcc
  proof -
    obtain frame s1 where f: "Anticoll_frame zero_buf (hal0 (uid_chip bcc)) = (frame, s1)"
      by force
    obtain st bd bl s2 where
      t: "MFRC522_ToCard PCD_TRANSCEIVE frame 2 frame 0 s1 = (st, bd, bl, s2)"
      by (metis prod_cases4)
    have "(case Anticoll_frame zero_buf (hal0 (uid_chip bcc)) of
             (frame, s1) \<Rightarrow>
               (case MFRC522_ToCard PCD_TRANSCEIVE frame 2 frame 0 s1 of
                 (st, bd, bl, s) \<Rightarrow> (st, bd 0, bd 1, bd 2, bd 3, bd 4))) =
          (MI_OK, 0xDE, 0xAD, 0xBE, 0xEF, bcc)"
      by (simp add: run_defs Anticoll_frame_def uid_chip_def upt_rec)
    then have v: "st = MI_OK"
      and b: "bd 0 = 0xDE" "bd 1 = 0xAD" "bd 2 = 0xBE" "bd 3 = 0xEF" "bd 4 = bcc"
      by (simp_all add: f t)
    show ?thesis
      using Anticoll_checksum [OF f t [unfolded v]] b by auto
  qed
  from run [of "0x22"] run [of "0x23"] show ?thesis by simp
qed

subsection \<open>Selecting a card\<close>

text \<open>
  \<^bold>\<open>C7\<close>. \<^verbatim>\<open>MFRC522_SelectTag\<close> returns byte 0 of the buffer its transceive left
  when that transceive returned \<^verbatim>\<open>MI_OK\<close> and reported 0x18 = 24 bits, and 0 in
  every other case.
\<close>

theorem SelectTag_size:
  assumes "SelectTag_frame serNum s = (buffer, s1)"
    and "MFRC522_ToCard PCD_TRANSCEIVE buffer 9 buffer recvBits s1 =
           (status, backData, backLen, s2)"
  shows "MFRC522_SelectTag serNum recvBits s =
           (if status = MI_OK \<and> backLen = 0x18 then backData 0 else 0, s2)"
  using assms by (simp add: MFRC522_SelectTag_def)

text \<open>
  Two runs, both with a transceive that returns \<^verbatim>\<open>MI_OK\<close> and a first byte 0x08:
  three bytes in the FIFO give 24 bits and the size code 0x08, two bytes give 16 bits
  and 0.
\<close>

theorem SelectTag_size_witness:
  "fst (MFRC522_SelectTag zero_buf 0 (hal0 (const_chip (sak_regs 3)))) = 0x08 \<and>
   fst (MFRC522_SelectTag zero_buf 0 (hal0 (const_chip (sak_regs 2)))) = 0"
proof -
  obtain b3 s3 where f3: "SelectTag_frame zero_buf (hal0 (const_chip (sak_regs 3))) = (b3, s3)"
    by force
  obtain st3 bd3 bl3 t3 where
    t3: "MFRC522_ToCard PCD_TRANSCEIVE b3 9 b3 0 s3 = (st3, bd3, bl3, t3)"
    by (metis prod_cases4)
  have "(case SelectTag_frame zero_buf (hal0 (const_chip (sak_regs 3))) of
           (buffer, s1) \<Rightarrow>
             (case MFRC522_ToCard PCD_TRANSCEIVE buffer 9 buffer 0 s1 of
               (st, bd, bl, s) \<Rightarrow> (st, bl, bd 0))) = (MI_OK, 0x18, 0x08)"
    by (simp add: run_defs SelectTag_frame_def sak_regs_def upt_rec)
  then have v3: "st3 = MI_OK" "bl3 = 0x18" "bd3 0 = 0x08" by (simp_all add: f3 t3)
  obtain b2 s2 where f2: "SelectTag_frame zero_buf (hal0 (const_chip (sak_regs 2))) = (b2, s2)"
    by force
  obtain st2 bd2 bl2 t2 where
    t2: "MFRC522_ToCard PCD_TRANSCEIVE b2 9 b2 0 s2 = (st2, bd2, bl2, t2)"
    by (metis prod_cases4)
  have "(case SelectTag_frame zero_buf (hal0 (const_chip (sak_regs 2))) of
           (buffer, s1) \<Rightarrow>
             (case MFRC522_ToCard PCD_TRANSCEIVE buffer 9 buffer 0 s1 of
               (st, bd, bl, s) \<Rightarrow> (st, bl, bd 0))) = (MI_OK, 0x10, 0x08)"
    by (simp add: run_defs SelectTag_frame_def sak_regs_def upt_rec)
  then have v2: "st2 = MI_OK" "bl2 = 0x10" "bd2 0 = 0x08" by (simp_all add: f2 t2)
  show ?thesis
    using SelectTag_size [OF f3 t3] SelectTag_size [OF f2 t2] v3 v2 by simp
qed

subsection \<open>Authentication\<close>

text \<open>
  \<^bold>\<open>C8\<close>. \<^verbatim>\<open>MFRC522_Auth\<close> returns \<^verbatim>\<open>MI_OK\<close> when its transceive with
  \<^verbatim>\<open>PCD_AUTHENT\<close> returned \<^verbatim>\<open>MI_OK\<close> and the status-2 register, read in the state
  that transceive left, has bit 3 (0x08) set; it returns \<^verbatim>\<open>MI_ERR\<close> in every other
  case.
\<close>

theorem Auth_ok_iff:
  assumes "MFRC522_ToCard PCD_AUTHENT
             (Auth_frame authMode BlockAddr Sectorkey serNum (buff0 u)) 12
             (Auth_frame authMode BlockAddr Sectorkey serNum (buff0 u)) (recvBits0 u) s =
           (status, backData, backLen, s1)"
  shows "fst (MFRC522_Auth authMode BlockAddr Sectorkey serNum u s) =
           (if status = MI_OK \<and> fst (MFRC522_ReadRegister MFRC522_REG_STATUS2 s1) AND 0x08 \<noteq> 0
            then MI_OK else MI_ERR)"
  using assms by (simp add: MFRC522_Auth_def Let_def split: prod.splits)

text \<open>
  Two runs with a transceive that returns \<^verbatim>\<open>MI_OK\<close>: with the status-2 register at
  0x08 the authentication returns \<^verbatim>\<open>MI_OK\<close>, with the register at 0 it returns
  \<^verbatim>\<open>MI_ERR\<close>.
\<close>

theorem Auth_ok_iff_witness:
  "fst (MFRC522_Auth PICC_AUTHENT1A 4 SectorKeyA zero_buf zero_uninit
          (hal0 (const_chip (auth_regs 0x10 0x08)))) = MI_OK \<and>
   fst (MFRC522_ToCard PCD_AUTHENT (Auth_frame PICC_AUTHENT1A 4 SectorKeyA zero_buf zero_buf) 12
          (Auth_frame PICC_AUTHENT1A 4 SectorKeyA zero_buf zero_buf) 0
          (hal0 (const_chip (auth_regs 0x10 0x00)))) = MI_OK \<and>
   fst (MFRC522_Auth PICC_AUTHENT1A 4 SectorKeyA zero_buf zero_uninit
          (hal0 (const_chip (auth_regs 0x10 0x00)))) = MI_ERR"
proof -
  let ?frame = "Auth_frame PICC_AUTHENT1A 4 SectorKeyA zero_buf (buff0 zero_uninit)"
  have run: "fst (MFRC522_ToCard PCD_AUTHENT ?frame 12 ?frame (recvBits0 zero_uninit)
                (hal0 (const_chip (auth_regs 0x10 v)))) = MI_OK \<and>
             fst (MFRC522_Auth PICC_AUTHENT1A 4 SectorKeyA zero_buf zero_uninit
                (hal0 (const_chip (auth_regs 0x10 v)))) =
               (if v AND 0x08 \<noteq> 0 then MI_OK else MI_ERR)" for v
  proof -
    obtain st bd bl s1 where
      t: "MFRC522_ToCard PCD_AUTHENT ?frame 12 ?frame (recvBits0 zero_uninit)
            (hal0 (const_chip (auth_regs 0x10 v))) = (st, bd, bl, s1)"
      by (metis prod_cases4)
    have "(case MFRC522_ToCard PCD_AUTHENT ?frame 12 ?frame (recvBits0 zero_uninit)
             (hal0 (const_chip (auth_regs 0x10 v))) of
            (st, bd, bl, s) \<Rightarrow> (st, fst (MFRC522_ReadRegister MFRC522_REG_STATUS2 s))) =
          (MI_OK, v)"
      by (simp add: run_defs Auth_frame_def SectorKeyA_def auth_regs_def upt_rec)
    then have v: "st = MI_OK" "fst (MFRC522_ReadRegister MFRC522_REG_STATUS2 s1) = v"
      by (simp_all add: t)
    show ?thesis using Auth_ok_iff [OF t] v t by simp
  qed
  from run [of "0x08"] run [of "0x00"] show ?thesis by (simp add: zero_uninit_def)
qed

subsection \<open>What a transceive receives\<close>

lemma recv_loop_trace:
  assumes "ToCard_recv_loop n i b s = (b', s')"
  shows "trace s' = map (\<lambda>k. RegRead MFRC522_REG_FIFO_DATA (b' k)) (rev [i..<unat n]) @ trace s \<and>
         (\<forall>k. k < i \<or> unat n \<le> k \<longrightarrow> b' k = b k)"
  using assms
proof (induction n i b s rule: ToCard_recv_loop.induct)
  case (1 n i b s)
  show ?case
  proof (cases "i < unat n")
    case True
    obtain v s1 where r: "MFRC522_ReadRegister MFRC522_REG_FIFO_DATA s = (v, s1)" by force
    have rec: "ToCard_recv_loop n (Suc i) (b(i := v)) s1 = (b', s')"
      using "1.prems" recv_loop_rec [OF True r] by simp
    have ih: "trace s' = map (\<lambda>k. RegRead MFRC522_REG_FIFO_DATA (b' k)) (rev [Suc i..<unat n]) @ trace s1"
      and fr: "\<forall>k. k < Suc i \<or> unat n \<le> k \<longrightarrow> b' k = (b(i := v)) k"
      using "1.IH" [OF True r [symmetric] rec] by simp_all
    have bi: "b' i = v" using fr by simp
    have up: "[i..<unat n] = i # [Suc i..<unat n]" using True by (simp add: upt_conv_Cons)
    show ?thesis
      using ih fr bi read_frame(4) [OF r] True by (auto simp add: up)
  next
    case False
    then show ?thesis using "1.prems" recv_loop_stop [OF False] by simp
  qed
qed

lemma recv_count_unat:
  "unat (ToCard_recv_count n) = (if n = 0 then 1 else if 16 < unat n then 16 else unat n)"
  by (auto simp add: ToCard_recv_count_def Let_def word_less_nat_alt unat_eq_0)

lemma backLen_word:
  "ToCard_backLen n l = (if l \<noteq> 0 then (ucast n - 1) * 8 + ucast l else ucast n * 8)"
  by (simp add: ToCard_backLen_def)

lemma backLen_unat:
  assumes "n \<noteq> 0"
  shows "unat (ToCard_backLen n l) = (if l \<noteq> 0 then (unat n - 1) * 8 + unat l else unat n * 8)"
proof -
  have n: "0 < unat n" "unat n < 256"
    using assms unsigned_less [of n, where ?'a = nat] by (simp_all add: unat_gt_0)
  have l: "unat l < 256" using unsigned_less [of l, where ?'a = nat] by simp
  obtain m where m: "unat n = Suc m" using n(1) by (cases "unat n") auto
  have a: "(uint n - 1) * 8 + uint l = int ((unat n - 1) * 8 + unat l)"
    by (simp only: uint_nat m) simp
  have b: "uint n * 8 = int (unat n * 8)"
    by (simp only: uint_nat)
  have c: "unat (word_of_int (int k) :: u16) = k" if "k < 65536" for k
    using that by (simp add: unat_of_nat)
  have "(unat n - 1) * 8 + unat l < 65536" "unat n * 8 < 65536" using n l by simp_all
  then show ?thesis
    unfolding ToCard_backLen_def a b by (simp only: c split: if_splits) simp
qed

text \<open>
  \<^bold>\<open>C4\<close>. On a transceive with \<^verbatim>\<open>PCD_TRANSCEIVE\<close> that returns \<^verbatim>\<open>MI_OK\<close>, let
  \<open>fifoLevel\<close> and \<open>control\<close> be what the FIFO-level and the control register read
  after the error register, and \<open>lastBits = control AND 0x07\<close>. The reported bit count is
  \<open>(fifoLevel - 1) * 8 + lastBits\<close> when \<open>lastBits\<close> is not 0 and \<open>fifoLevel * 8\<close>
  when it is, as 16-bit numbers; read as a natural number this is the same formula
  whenever \<open>fifoLevel\<close> is not 0. After the control register the call makes exactly
  \<open>count\<close> more transfers, where \<open>count\<close> is \<open>fifoLevel\<close> with 0 raised to 1 and
  anything above 16 cut to 16; each is a read of the FIFO data register, the \<open>k\<close>-th
  goes to \<^verbatim>\<open>backData[k]\<close>, and the buffer from \<open>count\<close> on is untouched.
\<close>

theorem ToCard_received:
  assumes "ToCard_wait_loop (ToCard_waitIRq PCD_TRANSCEIVE) 2000
             (ToCard_start PCD_TRANSCEIVE sendData sendLen s) = (i, n, s1)"
    and "MFRC522_ReadRegister MFRC522_REG_ERROR
           (MFRC522_ClearBitMask MFRC522_REG_BIT_FRAMING 0x80 s1) = (e, s2)"
    and "MFRC522_ReadRegister MFRC522_REG_FIFO_LEVEL s2 = (fifoLevel, s3)"
    and "MFRC522_ReadRegister MFRC522_REG_CONTROL s3 = (control, s4)"
    and "lastBits = control AND 0x07"
    and "count = (if fifoLevel = 0 then 1 else if 16 < unat fifoLevel then 16 else unat fifoLevel)"
    and "MFRC522_ToCard PCD_TRANSCEIVE sendData sendLen backData backLen s =
           (MI_OK, backData', backLen', s')"
  shows "backLen' = (if lastBits \<noteq> 0 then (ucast fifoLevel - 1) * 8 + ucast lastBits
                     else ucast fifoLevel * 8) \<and>
         (fifoLevel \<noteq> 0 \<longrightarrow>
            unat backLen' = (if lastBits \<noteq> 0 then (unat fifoLevel - 1) * 8 + unat lastBits
                             else unat fifoLevel * 8)) \<and>
         trace s' = map (\<lambda>k. RegRead MFRC522_REG_FIFO_DATA (backData' k)) (rev [0..<count])
                      @ trace s4 \<and>
         (\<forall>k\<ge>count. backData' k = backData k)"
proof -
  obtain bd sd where rl: "ToCard_recv_loop (ToCard_recv_count fifoLevel) 0 backData s4 = (bd, sd)"
    by force
  have ok: "i \<noteq> 0 \<and> e AND 0x1B = 0"
    using ToCard_classify [OF assms(1,2), of backData backLen] assms(7)
    by (auto split: if_splits)
  have res: "MFRC522_ToCard PCD_TRANSCEIVE sendData sendLen backData backLen s =
      (if n AND ToCard_irqEn PCD_TRANSCEIVE AND 0x01 \<noteq> 0 then MI_NOTAGERR else MI_OK,
       bd, ToCard_backLen fifoLevel lastBits, sd)"
    using ok by (simp add: MFRC522_ToCard_def Let_def assms(1-5) rl)
  then have eq: "backData' = bd" "backLen' = ToCard_backLen fifoLevel lastBits" "s' = sd"
    using assms(7) by simp_all
  have cnt: "unat (ToCard_recv_count fifoLevel) = count"
    by (simp add: recv_count_unat assms(6))
  show ?thesis
    using recv_loop_trace [OF rl] backLen_unat [of fifoLevel lastBits]
    by (simp add: eq cnt backLen_word)
qed

text \<open>
  Four runs of one byte sent: FIFO level 3 with no last bits reports 24 bits, level 3
  with 5 last bits reports 21 bits, both after 3 FIFO reads (19 transfers in all, 16 of
  them before the first FIFO read); level 0 reads one byte; level 20 reads 16.
\<close>

theorem ToCard_received_witness:
  "(case MFRC522_ToCard PCD_TRANSCEIVE zero_buf 1 zero_buf 0
           (hal0 (const_chip (card_regs 0x30 0 3 0))) of
      (status, backData, backLen, s) \<Rightarrow> (status, backLen, length (trace s))) = (MI_OK, 24, 19) \<and>
   (case MFRC522_ToCard PCD_TRANSCEIVE zero_buf 1 zero_buf 0
           (hal0 (const_chip (card_regs 0x30 0 3 5))) of
      (status, backData, backLen, s) \<Rightarrow> (status, backLen, length (trace s))) = (MI_OK, 21, 19) \<and>
   (case MFRC522_ToCard PCD_TRANSCEIVE zero_buf 1 zero_buf 0
           (hal0 (const_chip (card_regs 0x30 0 0 0))) of
      (status, backData, backLen, s) \<Rightarrow> (status, backLen, length (trace s))) = (MI_OK, 0, 17) \<and>
   (case MFRC522_ToCard PCD_TRANSCEIVE zero_buf 1 zero_buf 0
           (hal0 (const_chip (card_regs 0x30 0 20 0))) of
      (status, backData, backLen, s) \<Rightarrow> (status, backLen, length (trace s))) = (MI_OK, 160, 32)"
proof -
  have run: "(case MFRC522_ToCard PCD_TRANSCEIVE zero_buf 1 zero_buf 0
                 (hal0 (const_chip (card_regs 0x30 0 l c))) of
      (status, backData, backLen, s) \<Rightarrow> (status, backLen, length (trace s))) =
     (MI_OK,
      if c AND 0x07 \<noteq> 0 then (ucast l - 1) * 8 + ucast (c AND 0x07) else ucast l * 8,
      16 + (if l = 0 then 1 else if 16 < unat l then 16 else unat l))" for l c
  proof -
    let ?s = "hal0 (const_chip (card_regs 0x30 0 l c))"
    obtain i n s1 where l1: "ToCard_wait_loop (ToCard_waitIRq PCD_TRANSCEIVE) 2000
        (ToCard_start PCD_TRANSCEIVE zero_buf 1 ?s) = (i, n, s1)"
      by (metis prod_cases3)
    obtain e s2 where l2: "MFRC522_ReadRegister MFRC522_REG_ERROR
        (MFRC522_ClearBitMask MFRC522_REG_BIT_FRAMING 0x80 s1) = (e, s2)"
      by force
    obtain fl s3 where l3: "MFRC522_ReadRegister MFRC522_REG_FIFO_LEVEL s2 = (fl, s3)"
      by force
    obtain ct s4 where l4: "MFRC522_ReadRegister MFRC522_REG_CONTROL s3 = (ct, s4)"
      by force
    obtain st bd bl s' where t: "MFRC522_ToCard PCD_TRANSCEIVE zero_buf 1 zero_buf 0 ?s =
        (st, bd, bl, s')"
      by (metis prod_cases4)
    have "(case ToCard_wait_loop (ToCard_waitIRq PCD_TRANSCEIVE) 2000
                 (ToCard_start PCD_TRANSCEIVE zero_buf 1 ?s) of
            (i, n, s1) \<Rightarrow>
              (case MFRC522_ReadRegister MFRC522_REG_ERROR
                      (MFRC522_ClearBitMask MFRC522_REG_BIT_FRAMING 0x80 s1) of
                (e, s2) \<Rightarrow>
                  (case MFRC522_ReadRegister MFRC522_REG_FIFO_LEVEL s2 of
                    (fl, s3) \<Rightarrow>
                      (case MFRC522_ReadRegister MFRC522_REG_CONTROL s3 of
                        (ct, s4) \<Rightarrow> (i, n, e, fl, ct, length (trace s4)))))) =
          (1999, 0x30, 0, l, c, 16)"
      by (simp add: run_defs)
    then have v: "i = 1999" "n = 0x30" "e = 0" "fl = l" "ct = c" "length (trace s4) = 16"
      by (simp_all add: l1 l2 l3 l4)
    have "st = MI_OK"
      using ToCard_classify [OF l1 l2, of zero_buf 0] t v by (simp add: ToCard_irqEn_def)
    then show ?thesis
      using ToCard_received [OF l1 l2 l3 l4 refl refl t [unfolded \<open>st = MI_OK\<close>]] v t by simp
  qed
  from run [of 3 0] run [of 3 5] run [of 0 0] run [of 20 0] show ?thesis by simp
qed

subsection \<open>The CRC coprocessor\<close>

lemma crc_loop_rec:
  assumes "MFRC522_ReadRegister MFRC522_REG_DIV_IRQ s = (n, s1)"
    and "i - 1 \<noteq> 0 \<and> n AND 0x04 = 0"
  shows "CalculateCRC_wait_loop i s = CalculateCRC_wait_loop (i - 1) s1"
  by (subst CalculateCRC_wait_loop.simps) (simp only: assms(1) prod.case if_P [OF assms(2)])

lemma crc_loop_stop:
  assumes "MFRC522_ReadRegister MFRC522_REG_DIV_IRQ s = (n, s1)"
    and "\<not> (i - 1 \<noteq> 0 \<and> n AND 0x04 = 0)"
  shows "CalculateCRC_wait_loop i s = (i - 1, n, s1)"
  by (subst CalculateCRC_wait_loop.simps) (simp only: assms(1) prod.case if_not_P [OF assms(2)])

lemma u8_pred: "(x::u8) \<noteq> 0 \<Longrightarrow> unat (x - 1) = unat x - 1 \<and> 0 < unat x"
  by (simp add: unat_minus_one unat_gt_0)

lemma upt_Suc_shift: "map f (rev [0..<Suc c]) = map (\<lambda>k. f (Suc k)) (rev [0..<c]) @ [f 0]"
proof -
  have "[0..<Suc c] = 0 # map Suc [0..<c]"
    by (simp add: upt_conv_Cons map_Suc_upt del: upt_Suc)
  then show ?thesis by (simp add: rev_map comp_def del: upt_Suc)
qed

lemma crc_loop_spec:
  assumes "CalculateCRC_wait_loop i s = (i', n, s')"
  shows "\<exists>c. xfers s' = xfers s + c \<and> chip s' = chip s \<and> 1 \<le> c \<and> c \<le> unat (i - 1) + 1 \<and>
           trace s' = map (\<lambda>k. RegRead MFRC522_REG_DIV_IRQ (CalculateCRC_polled s k)) (rev [0..<c])
                        @ trace s \<and>
           (\<forall>k<c - 1. CalculateCRC_polled s k AND 0x04 = 0) \<and>
           (c < unat (i - 1) + 1 \<longrightarrow> CalculateCRC_polled s (c - 1) AND 0x04 \<noteq> 0)"
  using assms
proof (induction i s rule: CalculateCRC_wait_loop.induct)
  case (1 i s)
  obtain n0 s1 where r: "MFRC522_ReadRegister MFRC522_REG_DIV_IRQ s = (n0, s1)" by force
  note f = read_frame [OF r]
  have n0: "n0 = CalculateCRC_polled s 0" using f(1) by (simp add: CalculateCRC_polled_def)
  have sh: "CalculateCRC_polled s1 k = CalculateCRC_polled s (Suc k)" for k
    using f(2,3) by (simp add: CalculateCRC_polled_def)
  show ?case
  proof (cases "i - 1 \<noteq> 0 \<and> n0 AND 0x04 = 0")
    case True
    then have nz: "i - 1 \<noteq> 0" and clr: "n0 AND 0x04 = 0" by simp_all
    have rec: "CalculateCRC_wait_loop (i - 1) s1 = (i', n, s')"
      using "1.prems" crc_loop_rec [OF r True] by simp
    from "1.IH" [OF r [symmetric] True rec] obtain c where
      c: "xfers s' = xfers s1 + c" "chip s' = chip s1" "1 \<le> c" "c \<le> unat (i - 1 - 1) + 1"
         "trace s' = map (\<lambda>k. RegRead MFRC522_REG_DIV_IRQ (CalculateCRC_polled s1 k)) (rev [0..<c])
                        @ trace s1"
         "\<forall>k<c - 1. CalculateCRC_polled s1 k AND 0x04 = 0"
         "c < unat (i - 1 - 1) + 1 \<longrightarrow> CalculateCRC_polled s1 (c - 1) AND 0x04 \<noteq> 0"
      by blast
    have b: "unat (i - 1 - 1) + 1 = unat (i - 1)" using u8_pred [OF nz] by simp
    have t: "trace s' = map (\<lambda>k. RegRead MFRC522_REG_DIV_IRQ (CalculateCRC_polled s k)) (rev [0..<Suc c])
                        @ trace s"
      unfolding upt_Suc_shift using c(5) f(4) n0 by (simp add: sh)
    have q: "\<forall>k<Suc c - 1. CalculateCRC_polled s k AND 0x04 = 0"
    proof (intro allI impI)
      fix k assume k: "k < Suc c - 1"
      show "CalculateCRC_polled s k AND 0x04 = 0"
      proof (cases k)
        case 0
        then show ?thesis using clr n0 by simp
      next
        case (Suc j)
        then have "j < c - 1" using k by simp
        then show ?thesis using c(6) sh Suc by simp
      qed
    qed
    have l: "Suc c < unat (i - 1) + 1 \<longrightarrow> CalculateCRC_polled s (Suc c - 1) AND 0x04 \<noteq> 0"
    proof
      assume "Suc c < unat (i - 1) + 1"
      then have "c < unat (i - 1 - 1) + 1" using b by simp
      then have "CalculateCRC_polled s1 (c - 1) AND 0x04 \<noteq> 0" using c(7) by simp
      then show "CalculateCRC_polled s (Suc c - 1) AND 0x04 \<noteq> 0" using sh [of "c - 1"] c(3) by simp
    qed
    have "xfers s' = xfers s + Suc c \<and> chip s' = chip s \<and> 1 \<le> Suc c \<and> Suc c \<le> unat (i - 1) + 1"
      using c(1,2,4) f(2,3) b by simp
    then show ?thesis using t q l by blast
  next
    case False
    have st: "i' = i - 1" "n = n0" "s' = s1" using "1.prems" crc_loop_stop [OF r False] by simp_all
    have "xfers s' = xfers s + 1 \<and> chip s' = chip s \<and> (1::nat) \<le> 1 \<and> 1 \<le> unat (i - 1) + 1 \<and>
           trace s' = map (\<lambda>k. RegRead MFRC522_REG_DIV_IRQ (CalculateCRC_polled s k)) (rev [0..<1])
                        @ trace s \<and>
           (\<forall>k<1 - 1. CalculateCRC_polled s k AND 0x04 = 0) \<and>
           (1 < unat (i - 1) + 1 \<longrightarrow> CalculateCRC_polled s (1 - 1) AND 0x04 \<noteq> 0)"
      using False f n0 st by (auto simp add: unat_gt_0)
    then show ?thesis by blast
  qed
qed

lemma chip_CalculateCRC_start [simp]: "chip (CalculateCRC_start d l s) = chip s"
  by (simp add: CalculateCRC_start_def hal_defs Let_def)

text \<open>
  \<^bold>\<open>C6\<close>. Let \<open>count\<close> be the number of transfers the wait loop of
  \<^verbatim>\<open>MFRC522_CalculateCRC\<close> makes. It is at least 1 and at most 255; every one is a
  read of the divider interrupt register; all but the last show bit 0x04 clear, and the
  last shows it set unless it is the 255th. Whatever the loop saw, the function then
  reads the low result register and the high result register, in this order, and
  stores the first at \<^verbatim>\<open>pOutData[0]\<close> and the second at \<^verbatim>\<open>pOutData[1]\<close>; when
  the flag never shows in 255 polls the loop makes all 255 and the result is still
  these two reads. The function has no status to return.
\<close>

theorem CalculateCRC_result:
  assumes "s0 = CalculateCRC_start pIndata len s"
    and "CalculateCRC_wait_loop 0xFF s0 = (i, n, s1)"
    and "MFRC522_ReadRegister MFRC522_REG_CRC_RESULT_L s1 = (lo, s2)"
    and "MFRC522_ReadRegister MFRC522_REG_CRC_RESULT_M s2 = (hi, s3)"
    and "count = xfers s1 - xfers s0"
  shows "MFRC522_CalculateCRC pIndata len pOutData s = (pOutData(0 := lo, 1 := hi), s3) \<and>
         1 \<le> count \<and> count \<le> 255 \<and>
         trace s1 = map (\<lambda>k. RegRead MFRC522_REG_DIV_IRQ (CalculateCRC_polled s0 k))
                      (rev [0..<count]) @ trace s0 \<and>
         (\<forall>k<count - 1. CalculateCRC_polled s0 k AND 0x04 = 0) \<and>
         (count < 255 \<longrightarrow> CalculateCRC_polled s0 (count - 1) AND 0x04 \<noteq> 0) \<and>
         ((\<forall>k<255. CalculateCRC_polled s0 k AND 0x04 = 0) \<longrightarrow> count = 255)"
proof -
  have res: "MFRC522_CalculateCRC pIndata len pOutData s = (pOutData(0 := lo, 1 := hi), s3)"
    using assms(1-4) by (simp add: MFRC522_CalculateCRC_def)
  have budget: "unat (0xFF - 1 :: u8) + 1 = 255" by simp
  from crc_loop_spec [OF assms(2)] obtain c where
    c: "xfers s1 = xfers s0 + c" "1 \<le> c" "c \<le> unat (0xFF - 1 :: u8) + 1"
       "trace s1 = map (\<lambda>k. RegRead MFRC522_REG_DIV_IRQ (CalculateCRC_polled s0 k)) (rev [0..<c])
                     @ trace s0"
       "\<forall>k<c - 1. CalculateCRC_polled s0 k AND 0x04 = 0"
       "c < unat (0xFF - 1 :: u8) + 1 \<longrightarrow> CalculateCRC_polled s0 (c - 1) AND 0x04 \<noteq> 0"
    by blast
  have cc: "count = c" using c(1) assms(5) by simp
  have ex: "count = 255" if "\<forall>k<255. CalculateCRC_polled s0 k AND 0x04 = 0"
  proof (rule ccontr)
    assume "count \<noteq> 255"
    then have lt: "c < 255" using c(3) cc budget by simp
    then have "CalculateCRC_polled s0 (c - 1) AND 0x04 \<noteq> 0" using c(6) budget by simp
    moreover have "c - 1 < 255" using lt by simp
    ultimately show False using that by blast
  qed
  show ?thesis
    using res c(2-6) ex unfolding cc budget by blast
qed

text \<open>
  Two runs over two bytes, seven transfers before the loop and two after it: with the
  flag set the loop polls once (10 transfers), with the flag never set it polls 255
  times (264 transfers); both return the registers' 0xCD and 0xAB, low byte first.
\<close>

theorem CalculateCRC_result_witness:
  "(case MFRC522_CalculateCRC zero_buf 2 zero_buf (hal0 (const_chip (crc_regs 0x04))) of
      (out, s) \<Rightarrow> (out 0, out 1, xfers s)) = (0xCD, 0xAB, 10) \<and>
   (case MFRC522_CalculateCRC zero_buf 2 zero_buf (hal0 (const_chip (crc_regs 0x00))) of
      (out, s) \<Rightarrow> (out 0, out 1, xfers s)) = (0xCD, 0xAB, 264)"
proof -
  have run: "(case MFRC522_CalculateCRC zero_buf 2 zero_buf (hal0 (const_chip (crc_regs d))) of
      (out, s) \<Rightarrow> (out 0, out 1, xfers s)) =
      (0xCD, 0xAB, if d AND 0x04 = 0 then 264 else 10)" for d
  proof -
    let ?s = "hal0 (const_chip (crc_regs d))"
    let ?start = "CalculateCRC_start zero_buf 2 ?s"
    obtain i n s1 where l1: "CalculateCRC_wait_loop 0xFF ?start = (i, n, s1)"
      by (metis prod_cases3)
    obtain lo s2 where l2: "MFRC522_ReadRegister MFRC522_REG_CRC_RESULT_L s1 = (lo, s2)"
      by force
    obtain hi s3 where l3: "MFRC522_ReadRegister MFRC522_REG_CRC_RESULT_M s2 = (hi, s3)"
      by force
    note th = CalculateCRC_result [OF refl l1 l2 l3 refl, of zero_buf]
    have st: "xfers ?start = 7" "chip ?start = const_chip (crc_regs d)"
      by (simp_all add: run_defs)
    have p: "CalculateCRC_polled ?start k = d" for k
      unfolding CalculateCRC_polled_def st by (simp add: const_chip_def crc_regs_def)
    have c1: "chip s1 = const_chip (crc_regs d)"
      using crc_loop_spec [OF l1] st(2) by auto
    have lo: "lo = 0xCD" using read_frame(1) [OF l2] c1 by (simp add: const_chip_def crc_regs_def)
    have hi: "hi = 0xAB" using read_frame(1,2) [OF l3] read_frame(2) [OF l2] c1
      by (simp add: const_chip_def crc_regs_def)
    have x3: "xfers s3 = xfers s1 + 2" using read_frame(3) [OF l2] read_frame(3) [OF l3] by simp
    have le: "xfers ?start \<le> xfers s1" using crc_loop_spec [OF l1] by auto
    have cnt: "xfers s1 - xfers ?start = (if d AND 0x04 = 0 then 255 else 1)"
    proof (cases "d AND 0x04 = 0")
      case True
      then show ?thesis using th p by simp
    next
      case False
      have "xfers s1 - xfers ?start < 2"
      proof (rule ccontr)
        assume "\<not> xfers s1 - xfers ?start < 2"
        then have "0 < xfers s1 - xfers ?start - 1" by simp
        then have "CalculateCRC_polled ?start 0 AND 0x04 = 0" using th by blast
        then show False using False p by simp
      qed
      moreover have "1 \<le> xfers s1 - xfers ?start" using th by blast
      ultimately show ?thesis using False by simp
    qed
    have "xfers s3 = (if d AND 0x04 = 0 then 264 else 10)"
      using cnt le x3 st(1) by (simp split: if_splits)
    then show ?thesis using th lo hi by simp
  qed
  from run [of "0x04"] run [of "0x00"] show ?thesis by simp
qed

subsection \<open>Which statuses the card commands hand on\<close>










subsection \<open>A failed write that returns 0\<close>

text \<open>
  \<^bold>\<open>C10\<close>. When the reply to the write command is 4 bits long with the low nibble 0,
  which is not the acknowledge 0xA, \<^verbatim>\<open>MFRC522_Write\<close> stops there, before any data
  is sent, and returns that nibble: 0, the value of \<^verbatim>\<open>MI_OK\<close>. The same holds when
  the command is acknowledged and the reply to the data is 4 bits with the low nibble 0.
\<close>

theorem Write_failure_returns_OK:
  assumes "Write_frame blockAddr (buff0 u) s = (frame, s1)"
    and "MFRC522_ToCard PCD_TRANSCEIVE frame 4 frame (recvBits0 u) s1 =
           (status, buff, recvBits, s2)"
    and "Write_data_frame writeData buff s2 = (frame', s3)"
    and "MFRC522_ToCard PCD_TRANSCEIVE frame' 18 frame' recvBits s3 =
           (status', buff', recvBits', s4)"
  shows "(recvBits = 4 \<and> buff 0 AND 0x0F = 0 \<longrightarrow>
            MFRC522_Write blockAddr writeData u s = (MI_OK, s2)) \<and>
         (status = MI_OK \<and> recvBits = 4 \<and> buff 0 AND 0x0F = 0x0A \<and>
          recvBits' = 4 \<and> buff' 0 AND 0x0F = 0 \<longrightarrow>
            MFRC522_Write blockAddr writeData u s = (MI_OK, s4))"
  using assms by (auto simp add: MFRC522_Write_def Write_ERROR_def)

text \<open>
  Two runs, both returning \<^verbatim>\<open>MI_OK\<close>: the card answers the write command with the
  nibble 0 and the function returns after 30 transfers, the data never sent; the card
  answers the command with 0xA and the data with 0, 88 transfers in all.
\<close>

theorem Write_failure_returns_OK_witness:
  "(case MFRC522_Write 4 zero_buf zero_uninit (hal0 (const_chip (card_regs 0x30 0 1 4))) of
      (status, s) \<Rightarrow> (status, xfers s)) = (MI_OK, 30) \<and>
   (case MFRC522_Write 4 zero_buf zero_uninit
           (hal0 (fifo_chip (card_regs 0x30 0 1 4) 29 [0x0A])) of
      (status, s) \<Rightarrow> (status, xfers s)) = (MI_OK, 88)"
proof -
  have run: "(case MFRC522_Write 4 zero_buf zero_uninit (hal0 (fifo_chip (card_regs 0x30 0 1 4) 29 [a])) of
      (status, s) \<Rightarrow> (status, xfers s)) = (MI_OK, if a = 0 then 30 else 88)"
    if "a = 0 \<or> a = 0x0A" for a
  proof -
    let ?s = "hal0 (fifo_chip (card_regs 0x30 0 1 4) 29 [a])"
    obtain f1 s1 where l1: "Write_frame 4 (buff0 zero_uninit) ?s = (f1, s1)" by force
    obtain st b rb s2 where
      l2: "MFRC522_ToCard PCD_TRANSCEIVE f1 4 f1 (recvBits0 zero_uninit) s1 = (st, b, rb, s2)"
      by (metis prod_cases4)
    obtain f2 s3 where l3: "Write_data_frame zero_buf b s2 = (f2, s3)" by force
    obtain st' b' rb' s4 where
      l4: "MFRC522_ToCard PCD_TRANSCEIVE f2 18 f2 rb s3 = (st', b', rb', s4)"
      by (metis prod_cases4)
    have "(case Write_frame 4 (buff0 zero_uninit) ?s of
             (f1, s1) \<Rightarrow>
               (case MFRC522_ToCard PCD_TRANSCEIVE f1 4 f1 (recvBits0 zero_uninit) s1 of
                 (st, b, rb, s2) \<Rightarrow>
                   (case Write_data_frame zero_buf b s2 of
                     (f2, s3) \<Rightarrow>
                       (case MFRC522_ToCard PCD_TRANSCEIVE f2 18 f2 rb s3 of
                         (st', b', rb', s4) \<Rightarrow>
                           (st, rb, b 0, xfers s2, rb', b' 0, xfers s4))))) =
          (MI_OK, 4, a, 30, 4, 0, 88)"
      by (simp add: run_defs Write_frame_def Write_data_frame_def upt_rec)
    then have v: "st = MI_OK" "rb = 4" "b 0 = a" "xfers s2 = 30" "rb' = 4" "b' 0 = 0" "xfers s4 = 88"
      by (simp_all add: l1 l2 l3 l4)
    show ?thesis
      using Write_failure_returns_OK [OF l1 l2 l3 l4] v that by auto
  qed
  have "fifo_chip (card_regs 0x30 0 1 4) 29 [0] = const_chip (card_regs 0x30 0 1 4)"
    by (auto simp add: fifo_chip_def const_chip_def card_regs_def fun_eq_iff)
  with run [of "0"] run [of "0x0A"] show ?thesis by simp
qed

subsection \<open>Protected blocks\<close>

text \<open>
  \<^bold>\<open>C2\<close> (as amended). For a block address that is 0 or is 3 modulo 4,
  \<^verbatim>\<open>MFRC522_Debug_Write\<close> and \<^verbatim>\<open>MFRC522_Debug_Clean\<close> return -1 and leave the
  state in which their call of \<^verbatim>\<open>MFRC522_Auth\<close> ended: the authentication is the
  only traffic on the bus, \<^verbatim>\<open>MFRC522_Write\<close> is not called, and nothing is
  transferred between the end of the authentication and the return.
\<close>

theorem protected_block_rejected:
  assumes "blockaddr = 0 \<or> blockaddr mod 4 = 3"
    and "MFRC522_Auth PICC_AUTHENT1A blockaddr SectorKeyA CardID ua s = (ret, s1)"
  shows "MFRC522_Debug_Write CardID blockaddr Write_Data len ua uw s = (- 1, s1) \<and>
         MFRC522_Debug_Clean CardID blockaddr ua uw s = (- 1, s1)"
  using assms by (auto simp add: MFRC522_Debug_Write_def MFRC522_Debug_Clean_def)

text \<open>
  Two runs of the theorem, a write to block 3 and a clean of block 0, with a chip on
  which the authentication succeeds.
\<close>

theorem protected_block_rejected_witness:
  "MFRC522_Debug_Write zero_buf 3 zero_buf 0 zero_uninit zero_uninit
           (hal0 (const_chip (auth_regs 0x10 0x08))) =
     (- 1, snd (MFRC522_Auth PICC_AUTHENT1A 3 SectorKeyA zero_buf zero_uninit
                  (hal0 (const_chip (auth_regs 0x10 0x08))))) \<and>
   MFRC522_Debug_Clean zero_buf 0 zero_uninit zero_uninit
           (hal0 (const_chip (auth_regs 0x10 0x08))) =
     (- 1, snd (MFRC522_Auth PICC_AUTHENT1A 0 SectorKeyA zero_buf zero_uninit
                  (hal0 (const_chip (auth_regs 0x10 0x08)))))"
proof -
  have p: "(3::u8) = 0 \<or> (3::u8) mod 4 = 3" "(0::u8) = 0 \<or> (0::u8) mod 4 = 3" by simp_all
  have a: "MFRC522_Auth PICC_AUTHENT1A b SectorKeyA zero_buf zero_uninit s =
      (fst (MFRC522_Auth PICC_AUTHENT1A b SectorKeyA zero_buf zero_uninit s),
       snd (MFRC522_Auth PICC_AUTHENT1A b SectorKeyA zero_buf zero_uninit s))" for b s
    by simp
  show ?thesis
    using protected_block_rejected [OF p(1) a, of zero_buf 0 zero_uninit]
      protected_block_rejected [OF p(2) a, of zero_buf 0 zero_uninit]
    by simp
qed

text \<open>
  Against C2 as it is written: the write to block 3 is refused with -1 only after 24
  transfers on the bus, among them the authenticate command written to the command
  register by \<^verbatim>\<open>MFRC522_ToCard\<close>.
\<close>

theorem protected_block_rejected_counterexample:
  "(case MFRC522_Debug_Write zero_buf 3 zero_buf 0 zero_uninit zero_uninit
           (hal0 (const_chip (auth_regs 0x10 0x08))) of
      (ret, s) \<Rightarrow>
        (ret, xfers s, RegWrite MFRC522_REG_COMMAND PCD_AUTHENT \<in> set (trace s))) =
     (- 1, 24, True)"
  by (simp add: run_defs MFRC522_Debug_Write_def MFRC522_Auth_def Auth_frame_def SectorKeyA_def
      auth_regs_def upt_rec)

end
